(* ===== verification/Prelude.thy ===== *)
theory Prelude
  imports Complex_Main "HOL-Library.AList"
begin

text \<open>
  Shared vocabulary of the development. Python code that may raise is modelled as a
  function into \<open>'e + 'a\<close>: \<open>Inl e\<close> is the exception \<open>e\<close> propagating, \<open>Inr a\<close> the
  value returned. \<open>sbind\<close> sequences two such computations (the second runs only when the
  first returned), and \<open>smap\<close> is a Python list comprehension \<open>[f(x) for x in xs]\<close>,
  which evaluates left to right and stops at the first exception. \<open>dict_add\<close> is the
  key order of a Python dict under \<open>d[k] = v\<close>: an existing key keeps its position, a
  new key goes last. The collection \<open>result_simps\<close> gathers the rewrite rules that
  push these combinators through the component proofs.
\<close>

named_theorems result_simps "rewriting of exception results"

definition sbind :: "'e + 'a \<Rightarrow> ('a \<Rightarrow> 'e + 'b) \<Rightarrow> 'e + 'b" where
  "sbind m f = (case m of Inl e \<Rightarrow> Inl e | Inr a \<Rightarrow> f a)"

fun smap :: "('a \<Rightarrow> 'e + 'b) \<Rightarrow> 'a list \<Rightarrow> 'e + 'b list" where
  "smap f [] = Inr []"
| "smap f (x # xs) = sbind (f x) (\<lambda>y. sbind (smap f xs) (\<lambda>ys. Inr (y # ys)))"

definition dict_add :: "'a \<Rightarrow> 'a list \<Rightarrow> 'a list" where
  "dict_add x xs = (if x \<in> set xs then xs else xs @ [x])"

subsection \<open>The result bind\<close>

lemma sbind_Inl [simp, result_simps]: "sbind (Inl e) f = Inl e"
  by (simp add: sbind_def)

lemma sbind_Inr [simp, result_simps]: "sbind (Inr a) f = f a"
  by (simp add: sbind_def)

lemma sbind_eq_Inr [result_simps]:
  "sbind m f = Inr b \<longleftrightarrow> (\<exists>a. m = Inr a \<and> f a = Inr b)"
  by (cases m) simp_all

lemma sbind_eq_Inl [result_simps]:
  "sbind m f = Inl e \<longleftrightarrow> m = Inl e \<or> (\<exists>a. m = Inr a \<and> f a = Inl e)"
  by (cases m) simp_all

lemma sbind_cong [fundef_cong]:
  "m = m' \<Longrightarrow> (\<And>a. m' = Inr a \<Longrightarrow> f a = f' a) \<Longrightarrow> sbind m f = sbind m' f'"
  by (cases m') simp_all

subsection \<open>List comprehensions that may raise\<close>

lemma smap_eq_Inr [result_simps]:
  "smap f xs = Inr ys \<longleftrightarrow> list_all2 (\<lambda>x y. f x = Inr y) xs ys"
proof (induction xs arbitrary: ys)
  case Nil
  then show ?case by auto
next
  case (Cons x xs)
  then show ?case by (cases ys) (auto simp: sbind_eq_Inr)
qed

lemma smap_Inr_length: "smap f xs = Inr ys \<Longrightarrow> length ys = length xs"
  by (simp add: smap_eq_Inr list_all2_lengthD)

lemma smap_Inr_iff_all:
  "(\<exists>ys. smap f xs = Inr ys) \<longleftrightarrow> (\<forall>x \<in> set xs. \<exists>y. f x = Inr y)"
  by (induction xs) (auto simp: sbind_eq_Inr)

lemma smap_Inr_map:
  assumes "\<And>x. x \<in> set xs \<Longrightarrow> f x = Inr (g x)"
  shows "smap f xs = Inr (map g xs)"
  using assms by (induction xs) auto

lemma smap_append:
  "smap f (xs @ ys) = sbind (smap f xs) (\<lambda>a. sbind (smap f ys) (\<lambda>b. Inr (a @ b)))"
proof (induction xs)
  case Nil
  show ?case by (cases "smap f ys") simp_all
next
  case (Cons x xs)
  then show ?case
    by (cases "f x"; cases "smap f xs"; cases "smap f ys") simp_all
qed

lemma smap_Inr_all:
  "\<forall>x \<in> set xs. \<exists>y. f x = Inr y \<Longrightarrow> \<exists>ys. smap f xs = Inr ys"
  by (simp add: smap_Inr_iff_all)

lemma smap_Inl_first:
  "smap f xs = Inl e \<Longrightarrow>
     \<exists>ys x zs. xs = ys @ x # zs \<and> (\<forall>y \<in> set ys. \<exists>b. f y = Inr b) \<and> f x = Inl e"
proof (induction xs)
  case Nil
  then show ?case by simp
next
  case (Cons a xs)
  show ?case
  proof (cases "f a")
    case (Inl e')
    with Cons.prems have "f a = Inl e" by simp
    then show ?thesis by (metis append_Nil empty_iff list.set(1))
  next
    case (Inr b)
    with Cons.prems have "smap f xs = Inl e"
      by (cases "smap f xs") simp_all
    with Cons.IH obtain ys x zs where
      "xs = ys @ x # zs" "\<forall>y \<in> set ys. \<exists>b. f y = Inr b" "f x = Inl e" by blast
    with Inr show ?thesis by (metis append_Cons set_ConsD)
  qed
qed

subsection \<open>Dictionary key order\<close>

lemma set_dict_add [simp]: "set (dict_add x xs) = insert x (set xs)"
  by (auto simp: dict_add_def)

lemma distinct_dict_add [simp]: "distinct xs \<Longrightarrow> distinct (dict_add x xs)"
  by (simp add: dict_add_def)

lemma length_dict_add:
  "length (dict_add x xs) = (if x \<in> set xs then length xs else Suc (length xs))"
  by (simp add: dict_add_def)

subsection \<open>Counting with distinct lists\<close>

lemma card_set_distinct: "distinct xs \<Longrightarrow> card (set xs) = length xs"
  by (rule distinct_card)

lemma sum_list_distinct_set:
  "distinct xs \<Longrightarrow> (\<Sum>x \<leftarrow> xs. f x) = (\<Sum>x \<in> set xs. f x)"
  by (simp add: sum_list_distinct_conv_sum_set)

lemma length_filter_distinct_card:
  "distinct xs \<Longrightarrow> length (filter P xs) = card {x \<in> set xs. P x}"
  by (metis distinct_card distinct_filter set_filter)

subsection \<open>Association lists as Python dicts\<close>

lemma length_update_present:
  "map_of m k = Some d \<Longrightarrow> length (AList.update k v m) = length m"
  by (induction m) (auto split: if_splits)

lemma length_delete_present:
  "map_of m k = Some d \<Longrightarrow> length (AList.delete k m) < length m"
  unfolding AList.delete_eq
  by (rule length_filter_less) (auto dest: map_of_SomeD)

lemma distinct_keys_update:
  "distinct (map fst m) \<Longrightarrow> distinct (map fst (AList.update k v m))"
  by (rule AList.distinct_update)

lemma keys_update_present:
  "map_of m k = Some d \<Longrightarrow> map fst (AList.update k v m) = map fst m"
  by (induction m) (auto split: if_splits)

subsection \<open>Cycles in finite relations\<close>

text \<open>A finite relation in which every element of a non-empty set has a predecessor in
  that set has a cycle: a finite acyclic relation is well-founded.\<close>

lemma cyclic_if_no_source:
  assumes "finite r" "S \<noteq> {}" "\<forall>v \<in> S. \<exists>u \<in> S. (u, v) \<in> r"
  shows "\<not> acyclic r"
proof
  assume "acyclic r"
  with assms(1) have "wf r" by (rule finite_acyclic_wf)
  moreover obtain x where "x \<in> S" using assms(2) by blast
  ultimately obtain z where "z \<in> S" "\<forall>y. (y, z) \<in> r \<longrightarrow> y \<notin> S"
    by (metis wf_eq_minimal)
  with assms(3) show False by blast
qed

lemma acyclic_if_rank:
  assumes "\<And>a b. (a, b) \<in> r \<Longrightarrow> f a < (f b :: nat)"
  shows "acyclic r"
  by (rule acyclicI_order [where f = "\<lambda>x. - int (f x)"]) (simp add: assms)

text \<open>A relation whose pairs all go forward in a list without repetitions is acyclic.\<close>

lemma forward_trancl:
  assumes "distinct ds" "\<And>u v. (u, v) \<in> r \<Longrightarrow> \<exists>i j. i < j \<and> j < length ds \<and> ds ! i = u \<and> ds ! j = v"
    and "(u, v) \<in> r\<^sup>+"
  shows "\<exists>i j. i < j \<and> j < length ds \<and> ds ! i = u \<and> ds ! j = v"
  using assms(3)
proof (induction rule: trancl_induct)
  case (base v)
  then show ?case by (rule assms(2))
next
  case (step w v)
  from step.IH obtain i j where ij: "i < j" "j < length ds" "ds ! i = u" "ds ! j = w" by blast
  from assms(2) [OF step.hyps(2)] obtain j' k where jk: "j' < k" "k < length ds" "ds ! j' = w" "ds ! k = v"
    by blast
  from ij jk assms(1) have "j = j'" by (metis nth_eq_iff_index_eq order.strict_trans)
  with ij jk show ?case by (metis order.strict_trans)
qed

lemma acyclic_if_forward:
  assumes "distinct ds" "\<And>u v. (u, v) \<in> r \<Longrightarrow> \<exists>i j. i < j \<and> j < length ds \<and> ds ! i = u \<and> ds ! j = v"
  shows "acyclic r"
proof (rule acyclicI, intro allI notI)
  fix v
  assume "(v, v) \<in> r\<^sup>+"
  from forward_trancl [OF assms this] obtain i j where "i < j" "j < length ds" "ds ! i = v" "ds ! j = v"
    by blast
  with assms(1) show False by (metis nth_eq_iff_index_eq order.strict_trans less_irrefl)
qed

lemma length_le_length_concat: "[] \<notin> set xss \<Longrightarrow> length xss \<le> length (concat xss)"
proof (induction xss)
  case Nil
  then show ?case by simp
next
  case (Cons xs xss)
  then show ?case by (cases xs) auto
qed

end
