(* ===== verification/Json.thy ===== *)
theory Json
  imports Prelude
begin

text \<open>
  The Python values the handler of \<^verbatim>\<open>src/backend/backend/main.py\<close> works on. The
  request body is parsed from JSON, so every element of \<open>data.nodes\<close> and \<open>data.edges\<close>
  is a JSON value (\<open>json\<close>): \<open>None\<close>, a bool, a number, a string, a list or a dict. A
  dict is kept as the list of its (key, value) pairs in the order of the text;
  \<open>json.loads\<close> lets a repeated key take the last value at the position of the first.
  Numbers are the exact value of the parsed number: Python's \<open>1\<close>, \<open>1.0\<close> and \<open>True\<close>
  compare equal and hash equally, and nothing in the code tells an int from a float.

  \<open>key\<close> is a hashable value under Python's equality, the identity of a networkx node;
  \<open>py_key\<close> gives it, or \<open>None\<close> for an unhashable list or dict. \<open>exc\<close> names the
  exceptions that can reach the handler's \<^verbatim>\<open>except Exception\<close>. The remaining
  definitions are the Python operations the code applies to these values: subscription
  \<open>v["k"]\<close>, iteration, unpacking into two names and the argument check of
  \<open>dict.update\<close>.
\<close>

datatype json =
    JNull
  | JBool bool
  | JNum rat
  | JStr string
  | JArr "json list"
  | JObj "(string \<times> json) list"

datatype key = KNone | KNum rat | KStr string

datatype exc =
    KeyError string
  | TypeError
  | ValueError
  | RuntimeError
  | NetworkXUnfeasible

fun py_key :: "json \<Rightarrow> key option" where
  "py_key JNull = Some KNone"
| "py_key (JBool b) = Some (KNum (if b then 1 else 0))"
| "py_key (JNum q) = Some (KNum q)"
| "py_key (JStr s) = Some (KStr s)"
| "py_key (JArr xs) = None"
| "py_key (JObj kvs) = None"

definition obj_keys :: "(string \<times> json) list \<Rightarrow> string list" where
  "obj_keys kvs = rev (remdups (rev (map fst kvs)))"

definition obj_get :: "(string \<times> json) list \<Rightarrow> string \<Rightarrow> json option" where
  "obj_get kvs k = map_of (rev kvs) k"

text \<open>
  Python's \<open>==\<close> on these values, the reference for node identity: \<open>None\<close> equals only
  itself, booleans and numbers compare by value (\<open>True == 1 == 1.0\<close>), strings by
  content, lists element by element, and dicts as mappings (same keys, equal values, the
  last value of a repeated key counting).
\<close>

function (sequential) py_eq :: "json \<Rightarrow> json \<Rightarrow> bool" where
  "py_eq JNull JNull = True"
| "py_eq (JBool a) (JBool b) = (a = b)"
| "py_eq (JBool a) (JNum q) = (q = (if a then 1 else 0))"
| "py_eq (JNum p) (JBool b) = (p = (if b then 1 else 0))"
| "py_eq (JNum p) (JNum q) = (p = q)"
| "py_eq (JStr s) (JStr t) = (s = t)"
| "py_eq (JArr xs) (JArr ys) = (length xs = length ys \<and> (\<forall>(x, y) \<in> set (zip xs ys). py_eq x y))"
| "py_eq (JObj a) (JObj b) =
     (set (obj_keys a) = set (obj_keys b) \<and>
      (\<forall>(k, x) \<in> set (rev a). obj_get a k = Some x \<longrightarrow>
         (case obj_get b k of Some y \<Rightarrow> py_eq x y | None \<Rightarrow> False)))"
| "py_eq v w = False"
  by pat_completeness auto
termination
proof (relation "measure (\<lambda>(x, y). size x)")
  show "wf (measure (\<lambda>(x, y). size x))" by simp
next
  fix xs ys :: "json list" and p x y
  assume "p \<in> set (zip xs ys)" "(x, y) = p"
  then have "x \<in> set xs" by (auto dest: set_zip_leftD)
  then have "size x \<le> size_list size xs" by (rule size_list_estimation') simp
  then show "((x, y), JArr xs, JArr ys) \<in> measure (\<lambda>(x, y). size x)" by simp
next
  fix a b :: "(string \<times> json) list" and p k x y
  assume "p \<in> set (rev a)" "(k, x) = p"
  then have "(k, x) \<in> set a" by simp
  then have "Suc (size x) \<le> size_list (size_prod (\<lambda>_. 0) size) a"
    by (rule size_list_estimation') simp
  then show "((x, y), JObj a, JObj b) \<in> measure (\<lambda>(x, y). size x)" by simp
qed

fun getitem :: "json \<Rightarrow> string \<Rightarrow> exc + json" where
  "getitem (JObj kvs) k = (case obj_get kvs k of None \<Rightarrow> Inl (KeyError k) | Some v \<Rightarrow> Inr v)"
| "getitem v k = Inl TypeError"

fun py_iter :: "json \<Rightarrow> exc + json list" where
  "py_iter (JArr xs) = Inr xs"
| "py_iter (JObj kvs) = Inr (map JStr (obj_keys kvs))"
| "py_iter (JStr s) = Inr (map (\<lambda>c. JStr [c]) s)"
| "py_iter v = Inl TypeError"

definition unpack2 :: "json \<Rightarrow> exc + (json \<times> json)" where
  "unpack2 v = sbind (py_iter v) (\<lambda>xs. case xs of [a, b] \<Rightarrow> Inr (a, b) | _ \<Rightarrow> Inl ValueError)"

definition update_item_check :: "json \<Rightarrow> exc + unit" where
  "update_item_check x =
     (case py_iter x of
        Inl e \<Rightarrow> Inl TypeError
      | Inr [k, v] \<Rightarrow> (if py_key k = None then Inl TypeError else Inr ())
      | Inr _ \<Rightarrow> Inl ValueError)"

definition dict_update_check :: "json \<Rightarrow> exc + unit" where
  "dict_update_check d =
     (case d of
        JObj kvs \<Rightarrow> Inr ()
      | _ \<Rightarrow> sbind (py_iter d) (\<lambda>xs. sbind (smap update_item_check xs) (\<lambda>_. Inr ())))"

lemmas json_defs = obj_keys_def obj_get_def unpack2_def update_item_check_def dict_update_check_def

text \<open>On hashable values, equal keys is exactly Python's equality.\<close>

lemma py_key_eq_py_eq: "py_key x = Some a \<Longrightarrow> py_key y = Some b \<Longrightarrow> (a = b) = py_eq x y"
  by (cases x; cases y) (auto split: if_splits)

end
