(* ===== verification/DiGraph.thy ===== *)
theory DiGraph
  imports Json
begin

text \<open>
  The part of \<^verbatim>\<open>networkx.DiGraph\<close> the handler uses (lines 34--43 of
  \<^verbatim>\<open>main.py\<close>): the constructor, \<open>add_nodes_from\<close>, \<open>add_edges_from\<close>,
  \<open>number_of_nodes\<close> and \<open>number_of_edges\<close>. networkx keeps three dicts keyed by the
  same nodes, \<open>_node\<close>, \<open>_succ\<close> and \<open>_pred\<close>; the record keeps the common key list
  (\<open>node\<close>, in insertion order) and the key lists of the inner dicts \<open>_succ[u]\<close> and
  \<open>_pred[v]\<close> (\<open>succ\<close>, \<open>pred\<close>). Node and edge attribute dicts are not kept: the
  handler never reads them, and only the exceptions their construction may raise are
  modelled (\<open>dict_update_check\<close>). \<open>wf_digraph\<close> is the invariant networkx keeps
  between the three dicts; \<open>nodes_of\<close> and \<open>arcs_of\<close> are the abstract graph, a node
  set and a set of arcs, and the lemmas show that each operation acts on them as a set
  union, that the counts are the cardinalities, and when an operation raises.
\<close>

record digraph =
  node :: "key list"
  succ :: "key \<Rightarrow> key list"
  pred :: "key \<Rightarrow> key list"

definition empty_digraph :: digraph where
  "empty_digraph = \<lparr>node = [], succ = (\<lambda>_. []), pred = (\<lambda>_. [])\<rparr>"

definition add_node_step :: "key \<Rightarrow> digraph \<Rightarrow> exc + digraph" where
  "add_node_step n G =
     (if n \<in> set (node G) then Inr G
      else if n = KNone then Inl ValueError
      else Inr (G\<lparr>node := node G @ [n], succ := (succ G)(n := []), pred := (pred G)(n := [])\<rparr>))"

definition node_key :: "json \<Rightarrow> exc + key" where
  "node_key v =
     (case py_key v of
        Some n \<Rightarrow> Inr n
      | None \<Rightarrow> sbind (unpack2 v) (\<lambda>(a, d).
          (case py_key a of
             None \<Rightarrow> Inl TypeError
           | Some n \<Rightarrow> sbind (dict_update_check d) (\<lambda>_. Inr n))))"

fun add_nodes_from :: "json list \<Rightarrow> digraph \<Rightarrow> exc + digraph" where
  "add_nodes_from [] G = Inr G"
| "add_nodes_from (v # vs) G =
     sbind (node_key v) (\<lambda>n. sbind (add_node_step n G) (add_nodes_from vs))"

definition add_edge_step :: "json \<times> json \<Rightarrow> digraph \<Rightarrow> exc + digraph" where
  "add_edge_step e G =
     (case e of (u, v) \<Rightarrow>
       (case py_key u of
          None \<Rightarrow> Inl TypeError
        | Some ku \<Rightarrow> sbind (add_node_step ku G) (\<lambda>G1.
            (case py_key v of
               None \<Rightarrow> Inl TypeError
             | Some kv \<Rightarrow> sbind (add_node_step kv G1) (\<lambda>G2.
                 Inr (G2\<lparr>succ := (succ G2)(ku := dict_add kv (succ G2 ku)),
                        pred := (pred G2)(kv := dict_add ku (pred G2 kv))\<rparr>))))))"

fun add_edges_from :: "(json \<times> json) list \<Rightarrow> digraph \<Rightarrow> exc + digraph" where
  "add_edges_from [] G = Inr G"
| "add_edges_from (e # es) G = sbind (add_edge_step e G) (add_edges_from es)"

definition build_graph :: "json list \<Rightarrow> (json \<times> json) list \<Rightarrow> exc + digraph" where
  "build_graph node_ids pairs = sbind (add_nodes_from node_ids empty_digraph) (add_edges_from pairs)"

definition number_of_nodes :: "digraph \<Rightarrow> nat" where
  "number_of_nodes G = length (node G)"

definition number_of_edges :: "digraph \<Rightarrow> nat" where
  "number_of_edges G = (\<Sum>n \<leftarrow> node G. length (succ G n) + length (pred G n)) div 2"

subsection \<open>The invariant and the abstract graph\<close>

definition wf_digraph :: "digraph \<Rightarrow> bool" where
  "wf_digraph G \<longleftrightarrow>
     distinct (node G) \<and> KNone \<notin> set (node G) \<and>
     (\<forall>n. n \<notin> set (node G) \<longrightarrow> succ G n = [] \<and> pred G n = []) \<and>
     (\<forall>n. distinct (succ G n) \<and> distinct (pred G n)) \<and>
     (\<forall>u v. v \<in> set (succ G u) \<longleftrightarrow> u \<in> set (pred G v))"

definition nodes_of :: "digraph \<Rightarrow> key set" where
  "nodes_of G = set (node G)"

definition arcs_of :: "digraph \<Rightarrow> (key \<times> key) set" where
  "arcs_of G = (\<Union>u \<in> set (node G). Pair u ` set (succ G u))"

text \<open>
  The key of an edge endpoint or of a declared node as networkx stores it: a hashable
  value other than \<open>None\<close>.
\<close>

definition good_key :: "json \<Rightarrow> key option" where
  "good_key v = (case py_key v of Some k \<Rightarrow> (if k = KNone then None else Some k) | None \<Rightarrow> None)"

definition arc_key :: "json \<times> json \<Rightarrow> (key \<times> key) option" where
  "arc_key e = (case e of (u, v) \<Rightarrow>
     (case (good_key u, good_key v) of (Some a, Some b) \<Rightarrow> Some (a, b) | _ \<Rightarrow> None))"

text \<open>The graph after one successful iteration of the edge loop of \<open>add_edges_from\<close>.\<close>

definition add_arc :: "key \<Rightarrow> key \<Rightarrow> digraph \<Rightarrow> digraph" where
  "add_arc a b G =
     G\<lparr>node := dict_add b (dict_add a (node G)),
       succ := (succ G)(a := dict_add b (succ G a)),
       pred := (pred G)(b := dict_add a (pred G b))\<rparr>"

subsection \<open>Lemmas\<close>

lemma wf_empty_digraph: "wf_digraph empty_digraph"
  by (simp add: wf_digraph_def empty_digraph_def)

lemma add_node_step_wf_eq:
  assumes "wf_digraph G"
  shows "add_node_step n G =
           (if n = KNone then Inl ValueError else Inr (G\<lparr>node := dict_add n (node G)\<rparr>))"
proof (cases "n \<in> set (node G)")
  case True
  with assms have "n \<noteq> KNone" by (auto simp: wf_digraph_def)
  with True show ?thesis by (simp add: add_node_step_def dict_add_def)
next
  case False
  with assms have "succ G n = []" "pred G n = []" by (auto simp: wf_digraph_def)
  then have "(succ G)(n := []) = succ G" "(pred G)(n := []) = pred G" by auto
  with False show ?thesis by (simp add: add_node_step_def dict_add_def)
qed

lemma nodes_of_empty [simp]: "nodes_of empty_digraph = {}"
  by (simp add: nodes_of_def empty_digraph_def)

lemma arcs_of_empty [simp]: "arcs_of empty_digraph = {}"
  by (simp add: arcs_of_def empty_digraph_def)

lemma add_nodes_from_append:
  "add_nodes_from (xs @ ys) G = sbind (add_nodes_from xs G) (add_nodes_from ys)"
proof (induction xs arbitrary: G)
  case Nil
  then show ?case by simp
next
  case (Cons x xs)
  show ?case
  proof (cases "node_key x")
    case (Inl e)
    then show ?thesis by simp
  next
    case (Inr n)
    with Cons.IH show ?thesis by (cases "add_node_step n G") simp_all
  qed
qed

lemma wf_add_node:
  "wf_digraph G \<Longrightarrow> n \<noteq> KNone \<Longrightarrow> wf_digraph (G\<lparr>node := dict_add n (node G)\<rparr>)"
  by (auto simp: wf_digraph_def)

lemma add_edge_step_wf_eq:
  assumes "wf_digraph G"
  shows "(add_edge_step e G = Inr G') \<longleftrightarrow> (\<exists>a b. arc_key e = Some (a, b) \<and> G' = add_arc a b G)"
proof -
  obtain u v where e: "e = (u, v)" by (cases e)
  show ?thesis
    using assms wf_add_node [OF assms]
    by (auto simp: e add_edge_step_def arc_key_def good_key_def add_node_step_wf_eq add_arc_def
             split: option.splits if_splits)
qed

lemma wf_add_arc:
  "wf_digraph G \<Longrightarrow> a \<noteq> KNone \<Longrightarrow> b \<noteq> KNone \<Longrightarrow> wf_digraph (add_arc a b G)"
  by (auto simp: wf_digraph_def add_arc_def)

lemma wf_succ_in_nodes:
  "wf_digraph G \<Longrightarrow> v \<in> set (succ G u) \<Longrightarrow> u \<in> set (node G) \<and> v \<in> set (node G)"
  unfolding wf_digraph_def by (metis empty_iff list.set(1))

lemma wf_pred_in_nodes:
  "wf_digraph G \<Longrightarrow> u \<in> set (pred G v) \<Longrightarrow> u \<in> set (node G) \<and> v \<in> set (node G)"
  using wf_succ_in_nodes unfolding wf_digraph_def by blast

lemma mem_arcs_of:
  "wf_digraph G \<Longrightarrow> (u, v) \<in> arcs_of G \<longleftrightarrow> v \<in> set (succ G u)"
  by (auto simp: arcs_of_def dest: wf_succ_in_nodes)

lemma arcs_of_in_nodes:
  "wf_digraph G \<Longrightarrow> arcs_of G \<subseteq> nodes_of G \<times> nodes_of G"
  by (auto simp: arcs_of_def nodes_of_def dest: wf_succ_in_nodes)

lemma nodes_of_add_node [simp]: "nodes_of (G\<lparr>node := dict_add n (node G)\<rparr>) = insert n (nodes_of G)"
  by (simp add: nodes_of_def)

lemma arcs_of_add_node:
  "wf_digraph G \<Longrightarrow> n \<noteq> KNone \<Longrightarrow> arcs_of (G\<lparr>node := dict_add n (node G)\<rparr>) = arcs_of G"
  using wf_add_node by (auto simp: mem_arcs_of set_eq_iff)

lemma nodes_of_add_arc [simp]: "nodes_of (add_arc a b G) = insert a (insert b (nodes_of G))"
  by (auto simp: nodes_of_def add_arc_def)

lemma arcs_of_add_arc:
  assumes "wf_digraph G" "a \<noteq> KNone" "b \<noteq> KNone"
  shows "arcs_of (add_arc a b G) = insert (a, b) (arcs_of G)"
proof -
  have "wf_digraph (add_arc a b G)" using assms by (rule wf_add_arc)
  then show ?thesis
    using assms(1) by (auto simp: mem_arcs_of set_eq_iff add_arc_def)
qed

lemma arc_key_Some_not_None: "arc_key e = Some (a, b) \<Longrightarrow> a \<noteq> KNone \<and> b \<noteq> KNone"
  by (auto simp: arc_key_def good_key_def split: prod.splits option.splits if_splits)

lemma add_nodes_from_Inr:
  "wf_digraph G \<Longrightarrow> add_nodes_from vs G = Inr G' \<Longrightarrow>
     wf_digraph G' \<and> nodes_of G' = nodes_of G \<union> {k. \<exists>v \<in> set vs. node_key v = Inr k} \<and>
     arcs_of G' = arcs_of G"
proof (induction vs arbitrary: G)
  case Nil
  then show ?case by simp
next
  case (Cons v vs)
  from Cons.prems obtain n G1 where n: "node_key v = Inr n" and G1: "add_node_step n G = Inr G1"
    and rest: "add_nodes_from vs G1 = Inr G'"
    by (auto simp: sbind_eq_Inr)
  from G1 Cons.prems(1) have nn: "n \<noteq> KNone" and G1eq: "G1 = G\<lparr>node := dict_add n (node G)\<rparr>"
    by (auto simp: add_node_step_wf_eq split: if_splits)
  with Cons.prems(1) have wf1: "wf_digraph G1" by (simp add: wf_add_node)
  from Cons.IH [OF wf1 rest] show ?case
    using n nn G1eq arcs_of_add_node [OF Cons.prems(1) nn] by auto
qed

lemma add_nodes_from_ok_iff:
  "wf_digraph G \<Longrightarrow>
     (\<exists>G'. add_nodes_from vs G = Inr G') \<longleftrightarrow> (\<forall>v \<in> set vs. \<exists>k. node_key v = Inr k \<and> k \<noteq> KNone)"
proof (induction vs arbitrary: G)
  case Nil
  then show ?case by simp
next
  case (Cons v vs)
  show ?case
  proof (cases "node_key v")
    case (Inl e)
    then show ?thesis by simp
  next
    case (Inr n)
    show ?thesis
    proof (cases "n = KNone")
      case True
      with Inr Cons.prems show ?thesis by (simp add: add_node_step_wf_eq)
    next
      case False
      with Cons.prems have "wf_digraph (G\<lparr>node := dict_add n (node G)\<rparr>)" by (rule wf_add_node)
      with Cons.IH Inr False Cons.prems show ?thesis by (simp add: add_node_step_wf_eq)
    qed
  qed
qed

lemma add_edges_from_Inr:
  "wf_digraph G \<Longrightarrow> add_edges_from es G = Inr G' \<Longrightarrow>
     wf_digraph G' \<and>
     nodes_of G' = nodes_of G \<union> fst ` {p. \<exists>e \<in> set es. arc_key e = Some p}
                              \<union> snd ` {p. \<exists>e \<in> set es. arc_key e = Some p} \<and>
     arcs_of G' = arcs_of G \<union> {p. \<exists>e \<in> set es. arc_key e = Some p}"
proof (induction es arbitrary: G)
  case Nil
  then show ?case by simp
next
  case (Cons e es)
  from Cons.prems obtain G1 where G1: "add_edge_step e G = Inr G1" and rest: "add_edges_from es G1 = Inr G'"
    by (auto simp: sbind_eq_Inr)
  from G1 Cons.prems(1) obtain a b where ab: "arc_key e = Some (a, b)" and G1eq: "G1 = add_arc a b G"
    by (auto simp: add_edge_step_wf_eq)
  from ab have nn: "a \<noteq> KNone" "b \<noteq> KNone" by (auto dest: arc_key_Some_not_None)
  with Cons.prems(1) G1eq have wf1: "wf_digraph G1" by (simp add: wf_add_arc)
  have "arcs_of G1 = insert (a, b) (arcs_of G)"
    using G1eq arcs_of_add_arc [OF Cons.prems(1) nn] by simp
  with Cons.IH [OF wf1 rest] ab G1eq show ?case by (auto simp: image_iff)
qed

lemma add_edges_from_ok_iff:
  "wf_digraph G \<Longrightarrow> (\<exists>G'. add_edges_from es G = Inr G') \<longleftrightarrow> (\<forall>e \<in> set es. arc_key e \<noteq> None)"
proof (induction es arbitrary: G)
  case Nil
  then show ?case by simp
next
  case (Cons e es)
  show ?case
  proof (cases "arc_key e")
    case None
    with Cons.prems have "\<nexists>G1. add_edge_step e G = Inr G1" by (simp add: add_edge_step_wf_eq)
    then show ?thesis using None by (cases "add_edge_step e G") auto
  next
    case (Some p)
    obtain a b where p: "p = (a, b)" by (cases p)
    with Some have nn: "a \<noteq> KNone" "b \<noteq> KNone" by (auto dest: arc_key_Some_not_None)
    have step: "add_edge_step e G = Inr (add_arc a b G)"
      using Some p Cons.prems by (simp add: add_edge_step_wf_eq)
    have "wf_digraph (add_arc a b G)" using Cons.prems nn by (rule wf_add_arc)
    with Cons.IH step Some show ?thesis by simp
  qed
qed

lemma number_of_nodes_card: "wf_digraph G \<Longrightarrow> number_of_nodes G = card (nodes_of G)"
  by (simp add: number_of_nodes_def nodes_of_def wf_digraph_def distinct_card)

lemma card_arcs_by_succ:
  assumes "wf_digraph G"
  shows "(\<Sum>n \<leftarrow> node G. length (succ G n)) = card (arcs_of G)"
proof -
  have d: "distinct (node G)" "\<And>n. distinct (succ G n)" using assms by (auto simp: wf_digraph_def)
  have "card (arcs_of G) = (\<Sum>u \<in> set (node G). card (Pair u ` set (succ G u)))"
    unfolding arcs_of_def by (rule card_UN_disjoint) auto
  also have "\<dots> = (\<Sum>u \<in> set (node G). length (succ G u))"
    using d by (simp add: card_image inj_on_def distinct_card)
  also have "\<dots> = (\<Sum>n \<leftarrow> node G. length (succ G n))"
    using d by (simp add: sum_list_distinct_conv_sum_set)
  finally show ?thesis by simp
qed

lemma card_arcs_by_pred:
  assumes "wf_digraph G"
  shows "(\<Sum>n \<leftarrow> node G. length (pred G n)) = card (arcs_of G)"
proof -
  have d: "distinct (node G)" "\<And>n. distinct (pred G n)" using assms by (auto simp: wf_digraph_def)
  have arcs: "arcs_of G = (\<Union>v \<in> set (node G). (\<lambda>u. (u, v)) ` set (pred G v))"
  proof (rule set_eqI)
    fix p :: "key \<times> key"
    obtain u v where p: "p = (u, v)" by (cases p)
    show "p \<in> arcs_of G \<longleftrightarrow> p \<in> (\<Union>v \<in> set (node G). (\<lambda>u. (u, v)) ` set (pred G v))"
      using assms wf_pred_in_nodes [OF assms, of u v]
      by (auto simp: p mem_arcs_of wf_digraph_def)
  qed
  have "card (arcs_of G) = (\<Sum>v \<in> set (node G). card ((\<lambda>u. (u, v)) ` set (pred G v)))"
    unfolding arcs by (rule card_UN_disjoint) auto
  also have "\<dots> = (\<Sum>v \<in> set (node G). length (pred G v))"
    using d by (simp add: card_image inj_on_def distinct_card)
  also have "\<dots> = (\<Sum>n \<leftarrow> node G. length (pred G n))"
    using d by (simp add: sum_list_distinct_conv_sum_set)
  finally show ?thesis by simp
qed

lemma number_of_edges_card_wf: "wf_digraph G \<Longrightarrow> number_of_edges G = card (arcs_of G)"
  by (simp add: number_of_edges_def sum_list_addf card_arcs_by_succ card_arcs_by_pred)

lemma build_graph_wf_digraph: "build_graph ids ps = Inr G \<Longrightarrow> wf_digraph G"
proof -
  assume b: "build_graph ids ps = Inr G"
  then obtain G1 where g1: "add_nodes_from ids empty_digraph = Inr G1"
    and g2: "add_edges_from ps G1 = Inr G"
    by (auto simp: build_graph_def sbind_eq_Inr)
  from add_nodes_from_Inr [OF wf_empty_digraph g1] have "wf_digraph G1" by blast
  from add_edges_from_Inr [OF this g2] show ?thesis by blast
qed

subsection \<open>Properties\<close>

text \<open>C4: On every graph the handler builds, number_of_edges, which networkx computes as half
  the sum of in- and out-degrees, is the number of distinct arcs.\<close>

theorem number_of_edges_card:
  "build_graph ids ps = Inr G \<Longrightarrow> number_of_edges G = card (arcs_of G)"
  by (rule number_of_edges_card_wf [OF build_graph_wf_digraph])

theorem number_of_edges_card_witness:
  "\<exists>G. build_graph [JStr ''a''] [(JStr ''a'', JStr ''b''), (JStr ''b'', JStr ''a''), (JStr ''a'', JStr ''b'')] = Inr G \<and>
       number_of_edges G = card (arcs_of G) \<and> number_of_edges G = 2"
proof -
  obtain G where b: "build_graph [JStr ''a''] [(JStr ''a'', JStr ''b''), (JStr ''b'', JStr ''a''), (JStr ''a'', JStr ''b'')] = Inr G"
    and n: "number_of_edges G = 2"
    by (simp add: build_graph_def add_edge_step_def add_node_step_def node_key_def empty_digraph_def
                  dict_add_def number_of_edges_def)
  from b n number_of_edges_card [OF b] show ?thesis by blast
qed





text \<open>C20: networkx's invariant between its dicts (\<open>wf_digraph\<close>: nodes without repetition
  and never None, successor and predecessor lists without repetition, mirror images of
  each other, and empty for keys that are not nodes) holds for the empty graph of line 34
  and is kept by every operation the handler applies to it.\<close>

theorem digraph_invariant_kept:
  "wf_digraph empty_digraph \<and>
   (\<forall>G n G'. wf_digraph G \<and> add_node_step n G = Inr G' \<longrightarrow> wf_digraph G') \<and>
   (\<forall>G e G'. wf_digraph G \<and> add_edge_step e G = Inr G' \<longrightarrow> wf_digraph G') \<and>
   (\<forall>G vs G'. wf_digraph G \<and> add_nodes_from vs G = Inr G' \<longrightarrow> wf_digraph G') \<and>
   (\<forall>G es G'. wf_digraph G \<and> add_edges_from es G = Inr G' \<longrightarrow> wf_digraph G')"
proof (intro conjI allI impI; (elim conjE)?)
  show "wf_digraph empty_digraph" by (rule wf_empty_digraph)
next
  fix G n G'
  assume "wf_digraph G" "add_node_step n G = Inr G'"
  then show "wf_digraph G'" by (auto simp: add_node_step_wf_eq split: if_splits intro: wf_add_node)
next
  fix G e G'
  assume wf: "wf_digraph G" and s: "add_edge_step e G = Inr G'"
  then obtain a b where "arc_key e = Some (a, b)" "G' = add_arc a b G"
    by (auto simp: add_edge_step_wf_eq)
  with wf show "wf_digraph G'" by (auto intro: wf_add_arc dest: arc_key_Some_not_None)
next
  fix G vs G'
  assume "wf_digraph G" "add_nodes_from vs G = Inr G'"
  then show "wf_digraph G'" using add_nodes_from_Inr by blast
next
  fix G es G'
  assume "wf_digraph G" "add_edges_from es G = Inr G'"
  then show "wf_digraph G'" using add_edges_from_Inr by blast
qed

theorem digraph_invariant_kept_witness:
  "\<exists>G'. add_edge_step (JStr ''a'', JNum 1) empty_digraph = Inr G' \<and> wf_digraph G'"
proof -
  obtain G' where s: "add_edge_step (JStr ''a'', JNum 1) empty_digraph = Inr G'"
    by (simp add: add_edge_step_def add_node_step_def empty_digraph_def)
  have "wf_digraph G'"
    using digraph_invariant_kept s wf_empty_digraph by blast
  with s show ?thesis by blast
qed

end
