(* ===== verification/TopoSort.thy ===== *)
theory TopoSort
  imports DiGraph
begin

text \<open>
  The body of networkx's \<open>topological_generations\<close> (Kahn's algorithm), on which
  \<open>is_directed_acyclic_graph\<close> at line 44 of \<^verbatim>\<open>main.py\<close> rests. The function keeps
  \<open>indegree_map\<close>, a dict from every node with unprocessed in-arcs to the number of
  them (an association list of Python ints, in insertion order), and a list
  \<open>zero_indegree\<close> of nodes whose in-arcs are all processed. One generation is
  processed node by node (\<open>process_generation\<close>); processing a node decrements the
  counter of each of its successors and moves a successor whose counter reaches zero from
  the dict to the next generation (\<open>decrement_children\<close>). A counter missing from the
  dict, or a node missing from the graph, is networkx's \<open>RuntimeError\<close> "graph changed
  during iteration".

  \<open>kahn_inv\<close> is the invariant of this loop relative to the list \<open>ds\<close> of nodes already
  processed: processed, pending and counted nodes partition the graph, every counter is the
  number of in-arcs from unprocessed nodes and is positive, pending nodes have none, and
  every processed node came after all its predecessors. The lemmas show that the inner
  loops never raise under the invariant, keep it, and never grow the dict plus the queue
  (the measure of the outer loop).
\<close>

fun decrement_children ::
  "key list \<Rightarrow> (key \<times> int) list \<Rightarrow> key list \<Rightarrow> exc + ((key \<times> int) list \<times> key list)" where
  "decrement_children [] m z = Inr (m, z)"
| "decrement_children (c # cs) m z =
     (case map_of m c of
        None \<Rightarrow> Inl RuntimeError
      | Some d \<Rightarrow>
          (let m' = AList.update c (d - 1) m in
           if d - 1 = 0 then decrement_children cs (AList.delete c m') (z @ [c])
           else decrement_children cs m' z))"

fun process_generation ::
  "digraph \<Rightarrow> key list \<Rightarrow> (key \<times> int) list \<Rightarrow> key list \<Rightarrow> exc + ((key \<times> int) list \<times> key list)" where
  "process_generation G [] m z = Inr (m, z)"
| "process_generation G (n # ns) m z =
     (if n \<notin> set (node G) then Inl RuntimeError
      else sbind (decrement_children (succ G n) m z) (\<lambda>(m', z'). process_generation G ns m' z'))"

definition indeg_rest :: "digraph \<Rightarrow> key list \<Rightarrow> key \<Rightarrow> nat" where
  "indeg_rest G ds v = length (filter (\<lambda>u. u \<notin> set ds) (pred G v))"

definition topo_ordered :: "digraph \<Rightarrow> key list \<Rightarrow> bool" where
  "topo_ordered G ds \<longleftrightarrow> (\<forall>i < length ds. set (pred G (ds ! i)) \<subseteq> set (take i ds))"

definition kahn_inv :: "digraph \<Rightarrow> key list \<Rightarrow> key list \<Rightarrow> (key \<times> int) list \<Rightarrow> bool" where
  "kahn_inv G ds pend m \<longleftrightarrow>
     distinct (ds @ pend @ map fst m) \<and> set (ds @ pend @ map fst m) = set (node G) \<and>
     (\<forall>v d. map_of m v = Some d \<longrightarrow> d = int (indeg_rest G ds v) \<and> 0 < d) \<and>
     (\<forall>v \<in> set pend. indeg_rest G ds v = 0) \<and> topo_ordered G ds"

text \<open>The dict left by \<open>decrement_children\<close> on distinct successors, as a map.\<close>

definition dec_map :: "key list \<Rightarrow> (key \<times> int) list \<Rightarrow> key \<Rightarrow> int option" where
  "dec_map cs m k =
     (if k \<in> set cs
      then (case map_of m k of Some d \<Rightarrow> if d = 1 then None else Some (d - 1) | None \<Rightarrow> None)
      else map_of m k)"

subsection \<open>The successor loop\<close>

lemma decrement_children_size:
  "decrement_children cs m z = Inr (m', z') \<Longrightarrow> length m' + length z' \<le> length m + length z"
proof (induction cs arbitrary: m z)
  case Nil
  then show ?case by simp
next
  case (Cons c cs)
  from Cons.prems obtain d where d: "map_of m c = Some d"
    by (auto split: option.splits)
  let ?m1 = "AList.update c (d - 1) m"
  have l1: "length ?m1 = length m" using d by (rule length_update_present)
  show ?case
  proof (cases "d - 1 = 0")
    case True
    with Cons.prems d have "decrement_children cs (AList.delete c ?m1) (z @ [c]) = Inr (m', z')"
      by (simp add: Let_def)
    from Cons.IH [OF this] have "length m' + length z' \<le> length (AList.delete c ?m1) + Suc (length z)"
      by simp
    moreover have "length (AList.delete c ?m1) < length ?m1"
      by (rule length_delete_present [of _ _ "d - 1"]) (simp add: update_conv')
    ultimately show ?thesis using l1 by simp
  next
    case False
    with Cons.prems d have "decrement_children cs ?m1 z = Inr (m', z')"
      by (simp add: Let_def)
    from Cons.IH [OF this] l1 show ?thesis by simp
  qed
qed

lemma decrement_children_eq:
  assumes "distinct cs" "distinct (map fst m)" "\<forall>c \<in> set cs. \<exists>d. map_of m c = Some d \<and> 0 < d"
  shows "\<exists>m'. decrement_children cs m z = Inr (m', z @ filter (\<lambda>c. map_of m c = Some 1) cs) \<and>
           distinct (map fst m') \<and> map_of m' = dec_map cs m"
  using assms
proof (induction cs arbitrary: m z)
  case Nil
  then show ?case by (simp add: dec_map_def)
next
  case (Cons c cs)
  from Cons.prems obtain d where d: "map_of m c = Some d" and dpos: "0 < d" by auto
  from Cons.prems(1) have c: "c \<notin> set cs" by simp
  show ?case
  proof (cases "d = 1")
    case True
    let ?m2 = "AList.delete c m"
    have step: "decrement_children (c # cs) m z = decrement_children cs ?m2 (z @ [c])"
      using d True by (simp add: Let_def delete_update_same)
    have map2: "map_of ?m2 = (map_of m)(c := None)" by (rule delete_conv')
    have P3: "\<forall>c' \<in> set cs. \<exists>d. map_of ?m2 c' = Some d \<and> 0 < d"
      using Cons.prems(3) c by (auto simp: map2)
    have P2: "distinct (map fst ?m2)" using Cons.prems(2) by (rule distinct_delete)
    from Cons.IH [OF _ P2 P3, of "z @ [c]"] c Cons.prems(1) obtain m' where
      A: "decrement_children cs ?m2 (z @ [c]) = Inr (m', (z @ [c]) @ filter (\<lambda>k. map_of ?m2 k = Some 1) cs)"
      and B: "distinct (map fst m')" and C: "map_of m' = dec_map cs ?m2"
      by auto
    have F: "filter (\<lambda>k. map_of ?m2 k = Some 1) cs = filter (\<lambda>k. map_of m k = Some 1) cs"
      using c by (auto simp: map2 intro: filter_cong)
    have "dec_map cs ?m2 = dec_map (c # cs) m"
      using c d True by (auto simp: dec_map_def map2 fun_eq_iff)
    then show ?thesis using step A B C F d True by simp
  next
    case False
    let ?m1 = "AList.update c (d - 1) m"
    have step: "decrement_children (c # cs) m z = decrement_children cs ?m1 z"
      using d False by (simp add: Let_def)
    have map1: "map_of ?m1 = (map_of m)(c \<mapsto> d - 1)" by (rule update_conv')
    have P3: "\<forall>c' \<in> set cs. \<exists>d. map_of ?m1 c' = Some d \<and> 0 < d"
      using Cons.prems(3) c by (auto simp: map1)
    have P2: "distinct (map fst ?m1)" using Cons.prems(2) by (rule distinct_keys_update)
    from Cons.IH [OF _ P2 P3, of z] c Cons.prems(1) obtain m' where
      A: "decrement_children cs ?m1 z = Inr (m', z @ filter (\<lambda>k. map_of ?m1 k = Some 1) cs)"
      and B: "distinct (map fst m')" and C: "map_of m' = dec_map cs ?m1"
      by auto
    have F: "filter (\<lambda>k. map_of ?m1 k = Some 1) cs = filter (\<lambda>k. map_of m k = Some 1) cs"
      using c by (auto simp: map1 intro: filter_cong)
    have "dec_map cs ?m1 = dec_map (c # cs) m"
      using c d False by (auto simp: dec_map_def map1 fun_eq_iff)
    then show ?thesis using step A B C F d False by simp
  qed
qed

subsection \<open>The generation loop\<close>

lemma process_generation_size:
  "process_generation G ns m z = Inr (m', z') \<Longrightarrow> length m' + length z' \<le> length m + length z"
proof (induction ns arbitrary: m z)
  case Nil
  then show ?case by simp
next
  case (Cons n ns)
  from Cons.prems obtain m1 z1 where d: "decrement_children (succ G n) m z = Inr (m1, z1)"
    and r: "process_generation G ns m1 z1 = Inr (m', z')"
    by (auto simp: sbind_eq_Inr split: if_splits)
  from decrement_children_size [OF d] Cons.IH [OF r] show ?case by simp
qed

lemma indeg_rest_zero_iff: "indeg_rest G ds v = 0 \<longleftrightarrow> set (pred G v) \<subseteq> set ds"
  by (auto simp: indeg_rest_def filter_empty_conv)

lemma indeg_rest_snoc:
  assumes "wf_digraph G" "n \<notin> set ds"
  shows "indeg_rest G (ds @ [n]) v = indeg_rest G ds v - (if v \<in> set (succ G n) then 1 else 0)"
proof -
  let ?xs = "filter (\<lambda>u. u \<notin> set ds) (pred G v)"
  have dist: "distinct ?xs" using assms(1) by (simp add: wf_digraph_def)
  have "filter (\<lambda>u. u \<notin> set (ds @ [n])) (pred G v) = removeAll n ?xs"
    by (auto simp: removeAll_filter_not_eq filter_filter intro: filter_cong)
  also have "\<dots> = remove1 n ?xs" using dist by (simp add: distinct_remove1_removeAll)
  finally have "indeg_rest G (ds @ [n]) v = length (remove1 n ?xs)" by (simp add: indeg_rest_def)
  moreover have "n \<in> set ?xs \<longleftrightarrow> v \<in> set (succ G n)"
    using assms by (auto simp: wf_digraph_def)
  ultimately show ?thesis by (simp add: length_remove1 indeg_rest_def)
qed

lemma topo_ordered_snoc:
  "topo_ordered G ds \<Longrightarrow> set (pred G n) \<subseteq> set ds \<Longrightarrow> topo_ordered G (ds @ [n])"
  by (auto simp: topo_ordered_def nth_append less_Suc_eq)

lemma topo_ordered_pred_in:
  "topo_ordered G ds \<Longrightarrow> v \<in> set ds \<Longrightarrow> set (pred G v) \<subseteq> set ds"
  unfolding topo_ordered_def by (metis in_set_conv_nth set_take_subset subset_trans)

lemma kahn_inv_child:
  assumes wf: "wf_digraph G" and inv: "kahn_inv G ds ((n # ns) @ z) m"
    and c: "c \<in> set (succ G n)"
  shows "map_of m c = Some (int (indeg_rest G ds c)) \<and> 0 < indeg_rest G ds c"
proof -
  from inv have nds: "n \<notin> set ds" by (auto simp: kahn_inv_def)
  from wf c have "n \<in> set (pred G c)" by (simp add: wf_digraph_def)
  with nds have pos: "0 < indeg_rest G ds c"
    by (auto simp: indeg_rest_def filter_empty_conv)
  have "c \<notin> set ds"
    using inv nds \<open>n \<in> set (pred G c)\<close> topo_ordered_pred_in by (fastforce simp: kahn_inv_def)
  moreover have "c \<notin> set ((n # ns) @ z)"
    using inv pos by (auto simp: kahn_inv_def)
  moreover have "c \<in> set (node G)" using wf c by (auto dest: wf_succ_in_nodes)
  ultimately have "c \<in> fst ` set m" using inv by (auto simp: kahn_inv_def)
  then obtain d where "map_of m c = Some d"
    by (metis domD dom_map_of_conv_image_fst)
  with inv pos show ?thesis by (auto simp: kahn_inv_def)
qed

lemma dom_dec_map:
  "k \<in> dom (dec_map cs m) \<longleftrightarrow> k \<in> dom (map_of m) \<and> \<not> (k \<in> set cs \<and> map_of m k = Some 1)"
  by (auto simp: dec_map_def split: option.splits if_splits)

lemma kahn_inv_step:
  assumes wf: "wf_digraph G" and inv: "kahn_inv G ds ((n # ns) @ z) m"
  shows "\<exists>m' z'. decrement_children (succ G n) m z = Inr (m', z') \<and>
           kahn_inv G (ds @ [n]) (ns @ z') m'"
proof -
  let ?cs = "succ G n"
  let ?new = "filter (\<lambda>c. map_of m c = Some 1) ?cs"
  note child = kahn_inv_child [OF wf inv]
  have ch: "\<forall>c \<in> set ?cs. \<exists>d. map_of m c = Some d \<and> 0 < d" using child by fastforce
  have dcs: "distinct ?cs" using wf by (simp add: wf_digraph_def)
  have dm: "distinct (map fst m)" using inv by (simp add: kahn_inv_def)
  obtain m' where dec: "decrement_children ?cs m z = Inr (m', z @ ?new)"
    and dm': "distinct (map fst m')" and mm': "map_of m' = dec_map ?cs m"
    using decrement_children_eq [OF dcs dm ch] by blast
  have keys': "set (map fst m') = {k \<in> set (map fst m). \<not> (k \<in> set ?cs \<and> map_of m k = Some 1)}"
    using dom_dec_map [of _ ?cs m] mm' by (auto simp: dom_map_of_conv_image_fst [symmetric])
  have newsub: "set ?new \<subseteq> set (map fst m)"
    by (auto simp: dom_map_of_conv_image_fst [symmetric])
  from inv have dA: "distinct (ds @ (n # ns) @ z @ map fst m)"
    and sA: "set (ds @ (n # ns) @ z @ map fst m) = set (node G)"
    and vals: "\<forall>v d. map_of m v = Some d \<longrightarrow> d = int (indeg_rest G ds v) \<and> 0 < d"
    and pend: "\<forall>v \<in> set ((n # ns) @ z). indeg_rest G ds v = 0"
    and topo: "topo_ordered G ds"
    by (auto simp: kahn_inv_def)
  have nds: "n \<notin> set ds" using dA by simp
  have I1: "distinct (ds @ [n] @ ns @ (z @ ?new) @ map fst m')"
    using dA dm' newsub keys' dcs by auto
  have I2: "set (ds @ [n] @ ns @ (z @ ?new) @ map fst m') = set (node G)"
    using sA newsub keys' by auto
  have I3: "\<forall>v d. map_of m' v = Some d \<longrightarrow> d = int (indeg_rest G (ds @ [n]) v) \<and> 0 < d"
  proof (intro allI impI)
    fix v d
    assume vd: "map_of m' v = Some d"
    show "d = int (indeg_rest G (ds @ [n]) v) \<and> 0 < d"
    proof (cases "v \<in> set ?cs")
      case True
      with child have c: "map_of m v = Some (int (indeg_rest G ds v))" "0 < indeg_rest G ds v"
        by auto
      with vd mm' True have "int (indeg_rest G ds v) \<noteq> 1" "d = int (indeg_rest G ds v) - 1"
        by (auto simp: dec_map_def split: if_splits)
      with c True show ?thesis by (simp add: indeg_rest_snoc [OF wf nds] of_nat_diff)
    next
      case False
      with vd mm' vals show ?thesis by (simp add: dec_map_def indeg_rest_snoc [OF wf nds])
    qed
  qed
  have I4: "\<forall>v \<in> set (ns @ z @ ?new). indeg_rest G (ds @ [n]) v = 0"
    using pend child by (auto simp: indeg_rest_snoc [OF wf nds])
  have I5: "topo_ordered G (ds @ [n])"
    using topo pend by (intro topo_ordered_snoc) (auto simp: indeg_rest_zero_iff)
  show ?thesis
    using dec I1 I2 I3 I4 I5 by (auto simp: kahn_inv_def)
qed

lemma process_generation_inv:
  "wf_digraph G \<Longrightarrow> kahn_inv G ds (ns @ z) m \<Longrightarrow>
     \<exists>m' z'. process_generation G ns m z = Inr (m', z') \<and> kahn_inv G (ds @ ns) z' m'"
proof (induction ns arbitrary: ds m z)
  case Nil
  then show ?case by simp
next
  case (Cons n ns)
  have nG: "n \<in> set (node G)" using Cons.prems(2) by (auto simp: kahn_inv_def)
  from kahn_inv_step [OF Cons.prems(1) Cons.prems(2)] obtain m1 z1 where
    d: "decrement_children (succ G n) m z = Inr (m1, z1)" and i1: "kahn_inv G (ds @ [n]) (ns @ z1) m1"
    by blast
  from Cons.IH [OF Cons.prems(1) i1] obtain m' z' where
    "process_generation G ns m1 z1 = Inr (m', z')" and "kahn_inv G ((ds @ [n]) @ ns) z' m'"
    by blast
  with d nG show ?case by auto
qed

end
