(* ===== verification/Dag.thy ===== *)
theory Dag
  imports TopoSort
begin

text \<open>
  networkx's \<open>topological_generations\<close> and \<open>is_directed_acyclic_graph\<close>, the call at
  line 44 of \<^verbatim>\<open>main.py\<close>. \<open>generations_loop\<close> is the \<^verbatim>\<open>while zero_indegree\<close>
  loop: it processes the current generation and continues with the nodes whose counters
  reached zero, collecting the generations the generator yields. It is a
  \<^theory_text>\<open>function\<close> whose termination is proved: the dict plus the sign of the queue
  shrinks in every round (\<open>process_generation_size\<close>). \<open>topological_generations\<close>
  builds the initial dict and queue from the in-degrees and raises
  \<open>NetworkXUnfeasible\<close> when counters remain after the loop.
  \<open>is_directed_acyclic_graph\<close> is \<open>G.is_directed() and not has_cycle(G)\<close>, where
  \<open>has_cycle\<close> consumes \<open>topological_sort\<close> (the concatenated generations) and turns
  \<open>NetworkXUnfeasible\<close> into \<open>True\<close>; a \<open>DiGraph\<close> is always directed.

  The theorems: on every graph that satisfies the networkx invariant the loop returns and
  raises nothing but \<open>NetworkXUnfeasible\<close>, which it raises exactly when the arc relation
  has a cycle; \<open>is_directed_acyclic_graph\<close> returns \<open>acyclic (arcs_of G)\<close>; on an
  acyclic graph the concatenated generations list every node once with every arc going
  forward; on every graph, cyclic or not, the loop yields each node at most once in at most
  as many generations as there are nodes. In every state the loop
  reaches (\<open>kahn_reach\<close>) the in-degree counters stay between 1 and the in-degree.
\<close>

function generations_loop ::
  "digraph \<Rightarrow> (key \<times> int) list \<Rightarrow> key list \<Rightarrow> exc + (key list list \<times> (key \<times> int) list)" where
  "generations_loop G m zero =
     (if zero = [] then Inr ([], m)
      else (case process_generation G zero m [] of
              Inl e \<Rightarrow> Inl e
            | Inr (m', z') \<Rightarrow> sbind (generations_loop G m' z') (\<lambda>(gens, mf). Inr (zero # gens, mf))))"
  by pat_completeness auto
termination
  by (relation "measure (\<lambda>(G, m, zero). length m + (if zero = [] then 0 else 1))")
     (auto dest!: process_generation_size simp: neq_Nil_conv)

definition topological_generations :: "digraph \<Rightarrow> exc + key list list" where
  "topological_generations G =
     (let indegree_map = [(v, int (length (pred G v))). v \<leftarrow> node G, 0 < length (pred G v)];
          zero_indegree = [v \<leftarrow> node G. length (pred G v) = 0]
      in (case generations_loop G indegree_map zero_indegree of
            Inl e \<Rightarrow> Inl e
          | Inr (gens, mf) \<Rightarrow> (if mf \<noteq> [] then Inl NetworkXUnfeasible else Inr gens)))"

definition is_directed_acyclic_graph :: "digraph \<Rightarrow> exc + bool" where
  "is_directed_acyclic_graph G =
     (case topological_generations G of
        Inl e \<Rightarrow> (if e = NetworkXUnfeasible then Inr False else Inl e)
      | Inr gens \<Rightarrow> Inr True)"

text \<open>
  The states the \<^verbatim>\<open>while zero_indegree\<close> loop passes through, as an inductive
  predicate: the processed nodes so far (\<open>ds\<close>, what the generator has yielded), the
  in-degree dict and the current generation. It starts from the dict and queue that
  \<open>topological_generations\<close> builds, and a round processes the whole generation.
\<close>

inductive kahn_reach :: "digraph \<Rightarrow> key list \<Rightarrow> (key \<times> int) list \<Rightarrow> key list \<Rightarrow> bool" for G where
  start: "kahn_reach G [] [(v, int (length (pred G v))). v \<leftarrow> node G, 0 < length (pred G v)]
                       [v \<leftarrow> node G. length (pred G v) = 0]"
| round: "kahn_reach G ds m zero \<Longrightarrow> zero \<noteq> [] \<Longrightarrow> process_generation G zero m [] = Inr (m', z') \<Longrightarrow>
            kahn_reach G (ds @ zero) m' z'"

declare generations_loop.simps [simp del]

subsection \<open>The loop keeps the invariant\<close>

lemma generations_loop_inv:
  "wf_digraph G \<Longrightarrow> kahn_inv G ds zero m \<Longrightarrow>
     \<exists>gens mf. generations_loop G m zero = Inr (gens, mf) \<and>
       kahn_inv G (ds @ concat gens) [] mf \<and> [] \<notin> set gens"
proof (induction G m zero arbitrary: ds rule: generations_loop.induct)
  case (1 G m zero)
  show ?case
  proof (cases "zero = []")
    case True
    with "1.prems" show ?thesis by (simp add: generations_loop.simps)
  next
    case False
    from process_generation_inv [of G ds zero "[]" m] "1.prems" obtain m' z' where
      pg: "process_generation G zero m [] = Inr (m', z')" and i': "kahn_inv G (ds @ zero) z' m'"
      by auto
    from "1.IH" [OF False pg refl "1.prems"(1) i'] obtain gens mf where
      "generations_loop G m' z' = Inr (gens, mf)" "kahn_inv G ((ds @ zero) @ concat gens) [] mf"
      "[] \<notin> set gens"
      by blast
    with False pg show ?thesis by (simp add: generations_loop.simps [of G m zero])
  qed
qed

lemma map_fst_comprehension: "map fst [(v, f v). v \<leftarrow> xs, P v] = filter P xs"
  by (induction xs) auto

lemma map_of_comprehension:
  "map_of [(v, f v). v \<leftarrow> xs, P v] k = Some d \<Longrightarrow> d = f k \<and> P k"
  by (induction xs) (auto split: if_splits)

lemma kahn_inv_init:
  assumes wf: "wf_digraph G"
  shows "kahn_inv G [] [v \<leftarrow> node G. length (pred G v) = 0]
           [(v, int (length (pred G v))). v \<leftarrow> node G, 0 < length (pred G v)]"
proof -
  have dn: "distinct (node G)" using wf by (simp add: wf_digraph_def)
  have ir: "\<And>v. indeg_rest G [] v = length (pred G v)" by (simp add: indeg_rest_def)
  show ?thesis
    using dn unfolding kahn_inv_def map_fst_comprehension
    by (auto simp: ir topo_ordered_def dest: map_of_comprehension)
qed

lemma finite_arcs_of: "finite (arcs_of G)"
  by (simp add: arcs_of_def)

lemma kahn_done_forward:
  assumes wf: "wf_digraph G" and inv: "kahn_inv G ds [] []" and uv: "(u, v) \<in> arcs_of G"
  shows "\<exists>i j. i < j \<and> j < length ds \<and> ds ! i = u \<and> ds ! j = v"
proof -
  from inv have sd: "set ds = set (node G)" and topo: "topo_ordered G ds"
    by (auto simp: kahn_inv_def)
  from uv wf have u: "u \<in> set (pred G v)" and "v \<in> set (node G)"
    by (auto simp: mem_arcs_of wf_digraph_def dest: wf_succ_in_nodes)
  with sd obtain j where j: "j < length ds" "ds ! j = v" by (metis in_set_conv_nth)
  with topo u have "u \<in> set (take j ds)" by (auto simp: topo_ordered_def)
  then obtain i where "i < length (take j ds)" "take j ds ! i = u" by (metis in_set_conv_nth)
  with j show ?thesis by auto
qed

lemma kahn_stuck_cyclic:
  assumes wf: "wf_digraph G" and inv: "kahn_inv G ds [] mf" and ne: "mf \<noteq> []"
  shows "\<not> acyclic (arcs_of G)"
proof (rule cyclic_if_no_source [OF finite_arcs_of])
  show "fst ` set mf \<noteq> {}" using ne by simp
  show "\<forall>v \<in> fst ` set mf. \<exists>u \<in> fst ` set mf. (u, v) \<in> arcs_of G"
  proof
    fix v
    assume "v \<in> fst ` set mf"
    then obtain d where "map_of mf v = Some d" by (metis domD dom_map_of_conv_image_fst)
    with inv have "0 < int (indeg_rest G ds v)" unfolding kahn_inv_def by metis
    then have "0 < indeg_rest G ds v" by simp
    then obtain u where u: "u \<in> set (pred G v)" "u \<notin> set ds"
      by (auto simp: indeg_rest_def filter_empty_conv)
    with wf have "u \<in> set (node G)" by (auto dest: wf_pred_in_nodes)
    with u inv have "u \<in> fst ` set mf" by (auto simp: kahn_inv_def)
    moreover from u wf have "(u, v) \<in> arcs_of G" by (simp add: mem_arcs_of wf_digraph_def)
    ultimately show "\<exists>u \<in> fst ` set mf. (u, v) \<in> arcs_of G" by blast
  qed
qed

lemma kahn_done_acyclic:
  assumes wf: "wf_digraph G" and inv: "kahn_inv G ds [] []"
  shows "acyclic (arcs_of G)"
proof (rule acyclic_if_forward)
  show "distinct ds" using inv by (simp add: kahn_inv_def)
  show "\<And>u v. (u, v) \<in> arcs_of G \<Longrightarrow> \<exists>i j. i < j \<and> j < length ds \<and> ds ! i = u \<and> ds ! j = v"
    using kahn_done_forward [OF wf inv] by blast
qed

lemma topological_generations_run:
  assumes wf: "wf_digraph G"
  shows "\<exists>gens mf.
     generations_loop G [(v, int (length (pred G v))). v \<leftarrow> node G, 0 < length (pred G v)]
       [v \<leftarrow> node G. length (pred G v) = 0] = Inr (gens, mf) \<and>
     kahn_inv G (concat gens) [] mf \<and> [] \<notin> set gens"
  using generations_loop_inv [OF wf kahn_inv_init [OF wf]] by simp

subsection \<open>Correctness\<close>

lemma dag_check_cases:
  assumes wf: "wf_digraph G"
  shows "(acyclic (arcs_of G) \<and> (\<exists>gens. topological_generations G = Inr gens)) \<or>
         (\<not> acyclic (arcs_of G) \<and> topological_generations G = Inl NetworkXUnfeasible)"
proof -
  from topological_generations_run [OF wf] obtain gens mf where
    run: "generations_loop G [(v, int (length (pred G v))). v \<leftarrow> node G, 0 < length (pred G v)]
       [v \<leftarrow> node G. length (pred G v) = 0] = Inr (gens, mf)"
    and inv: "kahn_inv G (concat gens) [] mf" by blast
  show ?thesis
  proof (cases "mf = []")
    case True
    with inv have "acyclic (arcs_of G)" using kahn_done_acyclic [OF wf] by simp
    with True run show ?thesis by (simp add: topological_generations_def)
  next
    case False
    with inv have "\<not> acyclic (arcs_of G)" by (rule kahn_stuck_cyclic [OF wf])
    with False run show ?thesis by (simp add: topological_generations_def)
  qed
qed

lemma is_directed_acyclic_graph_wf:
  "wf_digraph G \<Longrightarrow> is_directed_acyclic_graph G = Inr (acyclic (arcs_of G))"
  using dag_check_cases [of G] by (auto simp: is_directed_acyclic_graph_def)

lemma topological_generations_Inr:
  assumes wf: "wf_digraph G" and r: "topological_generations G = Inr gens"
  shows "kahn_inv G (concat gens) [] [] \<and> [] \<notin> set gens"
proof -
  from topological_generations_run [OF wf] obtain gens' mf where
    run: "generations_loop G [(v, int (length (pred G v))). v \<leftarrow> node G, 0 < length (pred G v)]
       [v \<leftarrow> node G. length (pred G v) = 0] = Inr (gens', mf)"
    and inv: "kahn_inv G (concat gens') [] mf" and ne: "[] \<notin> set gens'" by blast
  from r run have "mf = []" "gens' = gens"
    by (auto simp: topological_generations_def split: if_splits)
  with inv ne show ?thesis by simp
qed

lemma topological_generations_order_wf:
  assumes "wf_digraph G" "acyclic (arcs_of G)"
  shows "\<exists>gens. topological_generations G = Inr gens \<and>
           distinct (concat gens) \<and> set (concat gens) = nodes_of G \<and>
           (\<forall>(u, v) \<in> arcs_of G. \<exists>i j. i < j \<and> j < length (concat gens) \<and>
                 concat gens ! i = u \<and> concat gens ! j = v)"
proof -
  from topological_generations_run [OF assms(1)] obtain gens mf where
    run: "generations_loop G [(v, int (length (pred G v))). v \<leftarrow> node G, 0 < length (pred G v)]
       [v \<leftarrow> node G. length (pred G v) = 0] = Inr (gens, mf)"
    and inv: "kahn_inv G (concat gens) [] mf" by blast
  have "mf = []" using kahn_stuck_cyclic [OF assms(1) inv] assms(2) by blast
  with run inv have "topological_generations G = Inr gens" "kahn_inv G (concat gens) [] []"
    by (simp_all add: topological_generations_def)
  then show ?thesis
    using kahn_done_forward [OF assms(1)] by (auto simp: kahn_inv_def nodes_of_def)
qed

subsection \<open>Properties on the graphs the handler builds\<close>

text \<open>C2: On every graph the handler builds, is_directed_acyclic_graph raises nothing and
  returns True exactly when the arc relation has no cycle (self-loops included).\<close>

theorem is_directed_acyclic_graph_correct:
  "build_graph ids ps = Inr G \<Longrightarrow> is_directed_acyclic_graph G = Inr (acyclic (arcs_of G))"
  by (rule is_directed_acyclic_graph_wf [OF build_graph_wf_digraph])

theorem is_directed_acyclic_graph_correct_witness:
  "\<exists>G. build_graph [JStr ''a'', JStr ''b''] [(JStr ''a'', JStr ''b'')] = Inr G \<and>
       is_directed_acyclic_graph G = Inr (acyclic (arcs_of G))"
proof -
  obtain G where b: "build_graph [JStr ''a'', JStr ''b''] [(JStr ''a'', JStr ''b'')] = Inr G"
    by (simp add: build_graph_def add_edge_step_def add_node_step_def node_key_def
                  empty_digraph_def dict_add_def)
  with is_directed_acyclic_graph_correct [OF b] show ?thesis by blast
qed

text \<open>C3: On every acyclic graph the handler builds, topological_generations returns
  generations whose concatenation (what topological_sort yields) lists every node exactly
  once and puts the source of every arc before its target.\<close>

theorem topological_generations_order:
  "build_graph ids ps = Inr G \<Longrightarrow> acyclic (arcs_of G) \<Longrightarrow>
     \<exists>gens. topological_generations G = Inr gens \<and>
       distinct (concat gens) \<and> set (concat gens) = nodes_of G \<and>
       (\<forall>(u, v) \<in> arcs_of G. \<exists>i j. i < j \<and> j < length (concat gens) \<and>
             concat gens ! i = u \<and> concat gens ! j = v)"
  by (rule topological_generations_order_wf [OF build_graph_wf_digraph])

theorem topological_generations_order_witness:
  "\<exists>G. build_graph [JStr ''a'', JStr ''b''] [(JStr ''a'', JStr ''b'')] = Inr G \<and>
       acyclic (arcs_of G) \<and> topological_generations G = Inr [[KStr ''a''], [KStr ''b'']]"
proof -
  obtain G where b: "build_graph [JStr ''a'', JStr ''b''] [(JStr ''a'', JStr ''b'')] = Inr G"
    and ac: "acyclic (arcs_of G)" and t: "topological_generations G = Inr [[KStr ''a''], [KStr ''b'']]"
    by (simp add: build_graph_def add_edge_step_def add_node_step_def node_key_def
                  empty_digraph_def dict_add_def arcs_of_def topological_generations_def
                  generations_loop.simps) (simp add: acyclic_def)
  from topological_generations_order [OF b ac] b ac t show ?thesis by blast
qed

text \<open>C9: On every graph the handler builds, acyclic or not, the generation loop started
  from the in-degree dict and queue of topological_generations returns without raising, after
  at most as many rounds as the graph has nodes: every generation is non-empty, no node is
  yielded twice, and the nodes yielded plus the counters left in the dict (the nodes on or
  behind a cycle) are exactly the graph's nodes.\<close>

theorem generations_loop_rounds:
  assumes "build_graph ids ps = Inr G"
  shows "\<exists>gens mf.
     generations_loop G [(v, int (length (pred G v))). v \<leftarrow> node G, 0 < length (pred G v)]
       [v \<leftarrow> node G. length (pred G v) = 0] = Inr (gens, mf) \<and>
     [] \<notin> set gens \<and> distinct (concat gens) \<and>
     length (concat gens) + length mf = number_of_nodes G \<and> length gens \<le> number_of_nodes G"
proof -
  have wf: "wf_digraph G" using assms by (rule build_graph_wf_digraph)
  from topological_generations_run [OF wf] obtain gens mf where
    run: "generations_loop G [(v, int (length (pred G v))). v \<leftarrow> node G, 0 < length (pred G v)]
       [v \<leftarrow> node G. length (pred G v) = 0] = Inr (gens, mf)"
    and inv: "kahn_inv G (concat gens) [] mf" and ne: "[] \<notin> set gens" by blast
  from inv have d: "distinct (concat gens @ map fst mf)"
    and st: "set (concat gens @ map fst mf) = set (node G)" by (simp_all add: kahn_inv_def)
  have "distinct (node G)" using wf by (simp add: wf_digraph_def)
  then have "length (concat gens @ map fst mf) = number_of_nodes G"
    using distinct_card [OF d] distinct_card [of "node G"] st by (simp add: number_of_nodes_def)
  then have len: "length (concat gens) + length mf = number_of_nodes G" by simp
  moreover have "length gens \<le> number_of_nodes G"
    using length_le_length_concat [OF ne] len by simp
  ultimately show ?thesis using run ne d by auto
qed

theorem generations_loop_rounds_witness:
  "\<exists>G. build_graph [JStr ''a'', JStr ''b''] [(JStr ''a'', JStr ''b''), (JStr ''b'', JStr ''b'')] = Inr G \<and>
       generations_loop G [(v, int (length (pred G v))). v \<leftarrow> node G, 0 < length (pred G v)]
         [v \<leftarrow> node G. length (pred G v) = 0] = Inr ([[KStr ''a'']], [(KStr ''b'', 1)]) \<and>
       length [[KStr ''a'']] \<le> number_of_nodes G"
proof -
  obtain G where b: "build_graph [JStr ''a'', JStr ''b''] [(JStr ''a'', JStr ''b''), (JStr ''b'', JStr ''b'')] = Inr G"
    and t: "generations_loop G [(v, int (length (pred G v))). v \<leftarrow> node G, 0 < length (pred G v)]
         [v \<leftarrow> node G. length (pred G v) = 0] = Inr ([[KStr ''a'']], [(KStr ''b'', 1)])"
    by (simp add: build_graph_def add_edge_step_def add_node_step_def node_key_def
                  empty_digraph_def dict_add_def generations_loop.simps)
  from generations_loop_rounds [OF b] b t show ?thesis by auto
qed

subsection \<open>The counters of the loop\<close>

lemma kahn_reach_inv:
  assumes wf: "wf_digraph G"
  shows "kahn_reach G ds m zero \<Longrightarrow> kahn_inv G ds zero m"
proof (induction rule: kahn_reach.induct)
  case start
  show ?case by (rule kahn_inv_init [OF wf])
next
  case (round ds m zero m' z')
  from process_generation_inv [OF wf, of ds zero "[]" m] round.IH
  obtain m'' z'' where "process_generation G zero m [] = Inr (m'', z'')"
    and "kahn_inv G (ds @ zero) z'' m''" by auto
  with round.hyps(3) show ?case by simp
qed

text \<open>C23: On every graph the handler builds, in every state of the generation loop each
  in-degree counter (a Python int, decremented by one per processed predecessor and
  deleted at zero) stays between 1 and the node's in-degree and counts exactly its
  predecessors not yet yielded; and the next round runs without the RuntimeError the
  loop raises when the graph changes during iteration.\<close>

theorem kahn_counters_bounded:
  assumes "build_graph ids ps = Inr G" and "kahn_reach G ds m zero"
  shows "(\<forall>(v, d) \<in> set m. 1 \<le> d \<and> d \<le> int (length (pred G v)) \<and>
                           d = int (length [u \<leftarrow> pred G v. u \<notin> set ds])) \<and>
         (zero \<noteq> [] \<longrightarrow> (\<exists>m' z'. process_generation G zero m [] = Inr (m', z')))"
proof (intro conjI ballI impI)
  have wf: "wf_digraph G" using assms(1) by (rule build_graph_wf_digraph)
  have inv: "kahn_inv G ds zero m" using assms(2) by (rule kahn_reach_inv [OF wf])
  fix p
  assume p: "p \<in> set m"
  obtain v d where vd: "p = (v, d)" by (cases p)
  have "distinct (map fst m)" using inv by (simp add: kahn_inv_def)
  then have "map_of m v = Some d" using p vd by simp
  with inv have d: "d = int (indeg_rest G ds v)" "0 < d" by (auto simp: kahn_inv_def)
  have "indeg_rest G ds v \<le> length (pred G v)" by (simp add: indeg_rest_def)
  with d show "case p of (v, d) \<Rightarrow> 1 \<le> d \<and> d \<le> int (length (pred G v)) \<and>
                             d = int (length [u \<leftarrow> pred G v. u \<notin> set ds])"
    by (simp add: vd indeg_rest_def Suc_le_eq)
next
  have wf: "wf_digraph G" using assms(1) by (rule build_graph_wf_digraph)
  have "kahn_inv G ds (zero @ []) m" using assms(2) kahn_reach_inv [OF wf] by simp
  then show "\<exists>m' z'. process_generation G zero m [] = Inr (m', z')"
    using process_generation_inv [OF wf] by blast
qed

theorem kahn_counters_bounded_witness:
  "\<exists>G. build_graph [JStr ''a'', JStr ''b''] [(JStr ''a'', JStr ''b'')] = Inr G \<and>
       kahn_reach G [] [(KStr ''b'', 1)] [KStr ''a''] \<and>
       (\<exists>m' z'. process_generation G [KStr ''a''] [(KStr ''b'', 1)] [] = Inr (m', z'))"
proof -
  obtain G where b: "build_graph [JStr ''a'', JStr ''b''] [(JStr ''a'', JStr ''b'')] = Inr G"
    and n: "node G = [KStr ''a'', KStr ''b'']" and pa: "pred G (KStr ''a'') = []"
    and pb: "pred G (KStr ''b'') = [KStr ''a'']"
    by (simp add: build_graph_def add_edge_step_def add_node_step_def node_key_def
                  empty_digraph_def dict_add_def)
  have "kahn_reach G [] [(v, int (length (pred G v))). v \<leftarrow> node G, 0 < length (pred G v)]
                        [v \<leftarrow> node G. length (pred G v) = 0]"
    by (rule kahn_reach.start)
  then have r: "kahn_reach G [] [(KStr ''b'', 1)] [KStr ''a'']" by (simp add: n pa pb)
  from kahn_counters_bounded [OF b r] b r show ?thesis by blast
qed

end
