(* ===== verification/Pipeline.thy ===== *)
theory Pipeline
  imports Dag
begin

text \<open>
  The handler of \<^verbatim>\<open>src/backend/backend/main.py\<close>. \<open>graph_data\<close> is the pydantic model
  \<open>GraphData\<close> (lines 23--25) and \<open>validate_graph_data\<close> what FastAPI does with the
  request body before \<open>parse_pipeline\<close> runs: a body that is not an object with list
  fields \<open>nodes\<close> and \<open>edges\<close> is answered with HTTP 422. \<open>node_ids_of\<close> and
  \<open>edges_of\<close> are the list comprehensions of lines 31--32, \<open>build_graph\<close> lines 34--36
  and \<open>parse_pipeline_body\<close> the body of the \<^verbatim>\<open>try\<close> block (lines 30--46), which
  runs these steps in the source's order and stops at the first exception.
  \<open>parse_pipeline\<close> (lines 28--49) turns every exception into HTTP 500 with the
  exception as its detail. The \<open>print\<close> calls of lines 38--40 only write to the console
  and are not modelled.

  The second group of definitions is the specification of a request: the keys of the
  declared node ids, the keyed arcs of the edges, and the result the spec asks for (the
  number of nodes including implicit endpoints, the number of distinct arcs, and whether
  the arcs are acyclic).
\<close>

record graph_data =
  nodes :: "json list"
  edges :: "json list"

record pipeline_result =
  num_nodes :: nat
  num_edges :: nat
  is_dag :: bool

datatype response =
    Response pipeline_result
  | HTTPException nat exc
  | RequestValidationError

definition validate_graph_data :: "json \<Rightarrow> graph_data option" where
  "validate_graph_data body =
     (case body of
        JObj kvs \<Rightarrow>
          (case (obj_get kvs ''nodes'', obj_get kvs ''edges'') of
             (Some (JArr ns), Some (JArr es)) \<Rightarrow> Some \<lparr>nodes = ns, edges = es\<rparr>
           | _ \<Rightarrow> None)
      | _ \<Rightarrow> None)"

definition node_ids_of :: "json list \<Rightarrow> exc + json list" where
  "node_ids_of ns = smap (\<lambda>node. getitem node ''id'') ns"

definition edge_pair :: "json \<Rightarrow> exc + (json \<times> json)" where
  "edge_pair edge =
     sbind (getitem edge ''source'') (\<lambda>s. sbind (getitem edge ''target'') (\<lambda>t. Inr (s, t)))"

definition edges_of :: "json list \<Rightarrow> exc + (json \<times> json) list" where
  "edges_of es = smap edge_pair es"

definition parse_pipeline_body :: "graph_data \<Rightarrow> exc + pipeline_result" where
  "parse_pipeline_body data =
     sbind (node_ids_of (nodes data)) (\<lambda>node_ids.
     sbind (edges_of (edges data)) (\<lambda>pairs.
     sbind (build_graph node_ids pairs) (\<lambda>G.
     sbind (is_directed_acyclic_graph G) (\<lambda>dag.
       Inr \<lparr>num_nodes = number_of_nodes G, num_edges = number_of_edges G, is_dag = dag\<rparr>))))"

definition parse_pipeline :: "json \<Rightarrow> response" where
  "parse_pipeline body =
     (case validate_graph_data body of
        None \<Rightarrow> RequestValidationError
      | Some data \<Rightarrow>
          (case parse_pipeline_body data of
             Inl e \<Rightarrow> HTTPException 500 e
           | Inr r \<Rightarrow> Response r))"

subsection \<open>The specification of a request\<close>

definition id_key :: "json \<Rightarrow> key option" where
  "id_key n = (case getitem n ''id'' of Inr v \<Rightarrow> good_key v | Inl e \<Rightarrow> None)"

definition edge_key :: "json \<Rightarrow> (key \<times> key) option" where
  "edge_key e = (case edge_pair e of Inr p \<Rightarrow> arc_key p | Inl ex \<Rightarrow> None)"

definition body_well_formed :: "graph_data \<Rightarrow> bool" where
  "body_well_formed d \<longleftrightarrow>
     list_all (\<lambda>n. id_key n \<noteq> None) (nodes d) \<and> list_all (\<lambda>e. edge_key e \<noteq> None) (edges d)"

definition declared_nodes :: "graph_data \<Rightarrow> key set" where
  "declared_nodes d = set (List.map_filter id_key (nodes d))"

definition declared_arcs :: "graph_data \<Rightarrow> (key \<times> key) set" where
  "declared_arcs d = set (List.map_filter edge_key (edges d))"

definition spec_result :: "graph_data \<Rightarrow> pipeline_result" where
  "spec_result d =
     \<lparr>num_nodes = card (declared_nodes d \<union> fst ` declared_arcs d \<union> snd ` declared_arcs d),
      num_edges = card (declared_arcs d),
      is_dag = acyclic (declared_arcs d)\<rparr>"

definition graph_body :: "json list \<Rightarrow> json list \<Rightarrow> json" where
  "graph_body ns es = JObj [(''nodes'', JArr ns), (''edges'', JArr es)]"

subsection \<open>Extraction and construction on well-formed requests\<close>

lemma good_key_node_key: "good_key v = Some k \<Longrightarrow> node_key v = Inr k \<and> k \<noteq> KNone"
  by (auto simp: good_key_def node_key_def split: option.splits if_splits)

lemma node_ids_of_wf:
  "list_all (\<lambda>n. id_key n \<noteq> None) ns \<Longrightarrow>
     \<exists>ids. node_ids_of ns = Inr ids \<and> (\<forall>v \<in> set ids. good_key v \<noteq> None) \<and>
       {k. \<exists>v \<in> set ids. node_key v = Inr k} = set (List.map_filter id_key ns)"
proof (induction ns)
  case Nil
  then show ?case by (simp add: node_ids_of_def)
next
  case (Cons n ns)
  from Cons.prems obtain v k where v: "getitem n ''id'' = Inr v" and k: "good_key v = Some k"
    by (auto simp: id_key_def split: sum.splits)
  from Cons.prems Cons.IH obtain ids where ids: "node_ids_of ns = Inr ids"
    and g: "\<forall>v \<in> set ids. good_key v \<noteq> None"
    and s: "{k. \<exists>v \<in> set ids. node_key v = Inr k} = set (List.map_filter id_key ns)"
    by auto
  have "node_ids_of (n # ns) = Inr (v # ids)" using v ids by (simp add: node_ids_of_def)
  moreover have "id_key n = Some k" using v k by (simp add: id_key_def)
  ultimately show ?case
    using g s k good_key_node_key [OF k] by auto
qed

lemma edges_of_wf:
  "list_all (\<lambda>e. edge_key e \<noteq> None) es \<Longrightarrow>
     \<exists>ps. edges_of es = Inr ps \<and> (\<forall>p \<in> set ps. arc_key p \<noteq> None) \<and>
       {p. \<exists>e \<in> set ps. arc_key e = Some p} = set (List.map_filter edge_key es)"
proof (induction es)
  case Nil
  then show ?case by (simp add: edges_of_def)
next
  case (Cons e es)
  from Cons.prems obtain q a where q: "edge_pair e = Inr q" and a: "arc_key q = Some a"
    by (auto simp: edge_key_def split: sum.splits)
  from Cons.prems Cons.IH obtain ps where ps: "edges_of es = Inr ps"
    and g: "\<forall>p \<in> set ps. arc_key p \<noteq> None"
    and s: "{p. \<exists>e \<in> set ps. arc_key e = Some p} = set (List.map_filter edge_key es)"
    by auto
  have "edges_of (e # es) = Inr (q # ps)" using q ps by (simp add: edges_of_def)
  moreover have "edge_key e = Some a" using q a by (simp add: edge_key_def)
  ultimately show ?case using g s a by auto
qed

lemma build_graph_wf:
  assumes "\<forall>v \<in> set ids. good_key v \<noteq> None" "\<forall>p \<in> set ps. arc_key p \<noteq> None"
  shows "\<exists>G. build_graph ids ps = Inr G \<and> wf_digraph G \<and>
           nodes_of G = {k. \<exists>v \<in> set ids. node_key v = Inr k}
                        \<union> fst ` {p. \<exists>e \<in> set ps. arc_key e = Some p}
                        \<union> snd ` {p. \<exists>e \<in> set ps. arc_key e = Some p} \<and>
           arcs_of G = {p. \<exists>e \<in> set ps. arc_key e = Some p}"
proof -
  have "\<forall>v \<in> set ids. \<exists>k. node_key v = Inr k \<and> k \<noteq> KNone"
    using assms(1) good_key_node_key by fastforce
  with add_nodes_from_ok_iff [OF wf_empty_digraph] obtain G1 where
    g1: "add_nodes_from ids empty_digraph = Inr G1" by blast
  from add_nodes_from_Inr [OF wf_empty_digraph g1] have wf1: "wf_digraph G1"
    and n1: "nodes_of G1 = {k. \<exists>v \<in> set ids. node_key v = Inr k}" and a1: "arcs_of G1 = {}"
    by auto
  from assms(2) add_edges_from_ok_iff [OF wf1] obtain G2 where
    g2: "add_edges_from ps G1 = Inr G2" by blast
  from add_edges_from_Inr [OF wf1 g2] n1 a1 g1 g2 show ?thesis
    by (auto simp: build_graph_def)
qed

lemma parse_pipeline_body_spec:
  assumes wfb: "body_well_formed d"
  shows "parse_pipeline_body d = Inr (spec_result d)"
proof -
  from wfb obtain ids where ids: "node_ids_of (nodes d) = Inr ids"
    and gi: "\<forall>v \<in> set ids. good_key v \<noteq> None"
    and si: "{k. \<exists>v \<in> set ids. node_key v = Inr k} = declared_nodes d"
    using node_ids_of_wf unfolding body_well_formed_def declared_nodes_def by blast
  from wfb obtain ps where ps: "edges_of (edges d) = Inr ps"
    and gp: "\<forall>p \<in> set ps. arc_key p \<noteq> None"
    and sp: "{p. \<exists>e \<in> set ps. arc_key e = Some p} = declared_arcs d"
    using edges_of_wf unfolding body_well_formed_def declared_arcs_def by blast
  from build_graph_wf [OF gi gp] si sp obtain G where g: "build_graph ids ps = Inr G"
    and wf: "wf_digraph G"
    and n: "nodes_of G = declared_nodes d \<union> fst ` declared_arcs d \<union> snd ` declared_arcs d"
    and a: "arcs_of G = declared_arcs d"
    by auto
  have dag: "is_directed_acyclic_graph G = Inr (acyclic (declared_arcs d))"
    using dag_check_cases [OF wf] a by (auto simp: is_directed_acyclic_graph_def)
  show ?thesis
    using ids ps g dag n a
    by (simp add: parse_pipeline_body_def spec_result_def number_of_nodes_card [OF wf]
                  number_of_edges_card_wf [OF wf])
qed

lemma validate_graph_body [simp]:
  "validate_graph_data (graph_body ns es) = Some \<lparr>nodes = ns, edges = es\<rparr>"
  by (simp add: graph_body_def validate_graph_data_def obj_get_def)

lemma node_ids_of_split:
  "node_ids_of (ns1 @ JObj [(''id'', x)] # ns2) =
     sbind (node_ids_of ns1) (\<lambda>a. sbind (node_ids_of ns2) (\<lambda>b. Inr (a @ x # b)))"
  by (cases "node_ids_of ns1"; cases "node_ids_of ns2")
     (simp_all add: node_ids_of_def smap_append obj_get_def)

lemma parse_pipeline_node_key_cong:
  assumes "node_key x = node_key y"
  shows "parse_pipeline (graph_body (ns1 @ JObj [(''id'', x)] # ns2) es) =
         parse_pipeline (graph_body (ns1 @ JObj [(''id'', y)] # ns2) es)"
proof -
  have c: "add_nodes_from (x # b) = add_nodes_from (y # b)" for b
    by (rule ext) (simp add: assms)
  have b: "build_graph (a @ x # b) ps = build_graph (a @ y # b) ps" for a b ps
    by (simp add: build_graph_def add_nodes_from_append c)
  show ?thesis
    by (cases "node_ids_of ns1"; cases "node_ids_of ns2")
       (simp_all add: parse_pipeline_def parse_pipeline_body_def node_ids_of_split b)
qed

lemma finite_declared_arcs [simp]: "finite (declared_arcs d)"
  by (simp add: declared_arcs_def)

lemma finite_declared_nodes [simp]: "finite (declared_nodes d)"
  by (simp add: declared_nodes_def)

subsection \<open>Properties of the handler\<close>

text \<open>C7: An edge object without a "target" key, after edges that all have both endpoints and
  with every node carrying an "id", makes the handler answer HTTP 500 with
  KeyError('target') rather than a validation error: nothing in the response is
  partial.\<close>

theorem parse_pipeline_missing_target:
  assumes "validate_graph_data body = Some d"
    and "\<forall>n \<in> set (nodes d). \<exists>v. getitem n ''id'' = Inr v"
    and "edges d = pre @ JObj kvs # post"
    and "\<forall>e \<in> set pre. \<exists>p. edge_pair e = Inr p"
    and "obj_get kvs ''source'' \<noteq> None" and "obj_get kvs ''target'' = None"
  shows "parse_pipeline body = HTTPException 500 (KeyError ''target'')"
proof -
  obtain ids where ids: "node_ids_of (nodes d) = Inr ids"
    using smap_Inr_all [OF assms(2)] unfolding node_ids_of_def by blast
  obtain ps_pre where ps_pre: "edges_of pre = Inr ps_pre"
    using smap_Inr_all [OF assms(4)] unfolding edges_of_def by blast
  have "edge_pair (JObj kvs) = Inl (KeyError ''target'')"
    using assms(5,6) by (auto simp: edge_pair_def)
  then have "edges_of (edges d) = Inl (KeyError ''target'')"
    using ps_pre assms(3) by (simp add: edges_of_def smap_append)
  with ids assms(1) show ?thesis
    by (simp add: parse_pipeline_def parse_pipeline_body_def)
qed

theorem parse_pipeline_missing_target_witness:
  "parse_pipeline (graph_body [JObj [(''id'', JStr ''a'')], JObj [(''id'', JStr ''b'')]]
                              [JObj [(''source'', JStr ''a'')]]) =
   HTTPException 500 (KeyError ''target'')"
  by (rule parse_pipeline_missing_target
        [where d = "\<lparr>nodes = [JObj [(''id'', JStr ''a'')], JObj [(''id'', JStr ''b'')]],
                    edges = [JObj [(''source'', JStr ''a'')]]\<rparr>" and pre = "[]"
           and kvs = "[(''source'', JStr ''a'')]" and post = "[]"])
     (simp_all add: obj_get_def)

text \<open>C8: A node object without an "id" key, after nodes that all have one, makes the
  handler answer HTTP 500 with KeyError('id'), whatever the edges are.\<close>

theorem parse_pipeline_missing_id:
  assumes "validate_graph_data body = Some d"
    and "nodes d = pre @ JObj kvs # post"
    and "\<forall>n \<in> set pre. \<exists>v. getitem n ''id'' = Inr v"
    and "obj_get kvs ''id'' = None"
  shows "parse_pipeline body = HTTPException 500 (KeyError ''id'')"
proof -
  obtain ids_pre where "node_ids_of pre = Inr ids_pre"
    using smap_Inr_all [OF assms(3)] unfolding node_ids_of_def by blast
  with assms(2,4) have "node_ids_of (nodes d) = Inl (KeyError ''id'')"
    by (simp add: node_ids_of_def smap_append)
  with assms(1) show ?thesis by (simp add: parse_pipeline_def parse_pipeline_body_def)
qed

theorem parse_pipeline_missing_id_witness:
  "parse_pipeline (graph_body [JObj [(''id'', JStr ''a'')], JObj [(''name'', JStr ''b'')]] []) =
   HTTPException 500 (KeyError ''id'')"
  by (rule parse_pipeline_missing_id
        [where d = "\<lparr>nodes = [JObj [(''id'', JStr ''a'')], JObj [(''name'', JStr ''b'')]], edges = []\<rparr>"
           and pre = "[JObj [(''id'', JStr ''a'')]]" and kvs = "[(''name'', JStr ''b'')]"
           and post = "[]"])
     (simp_all add: obj_get_def)

text \<open>C18: A node entry that is not a JSON object (a string, number, boolean, null or list),
  after nodes that all have an "id", makes the handler answer HTTP 500 with the TypeError
  of subscripting it, although the specification classifies a wrong field type as a
  validation error.\<close>

theorem parse_pipeline_non_object_node:
  assumes "validate_graph_data body = Some d"
    and "nodes d = pre @ x # post"
    and "\<forall>n \<in> set pre. \<exists>v. getitem n ''id'' = Inr v"
    and "\<forall>kvs. x \<noteq> JObj kvs"
  shows "parse_pipeline body = HTTPException 500 TypeError"
proof -
  obtain ids_pre where "node_ids_of pre = Inr ids_pre"
    using smap_Inr_all [OF assms(3)] unfolding node_ids_of_def by blast
  moreover have "getitem x ''id'' = Inl TypeError" using assms(4) by (cases x) auto
  ultimately have "node_ids_of (nodes d) = Inl TypeError"
    using assms(2) by (simp add: node_ids_of_def smap_append)
  with assms(1) show ?thesis by (simp add: parse_pipeline_def parse_pipeline_body_def)
qed

theorem parse_pipeline_non_object_node_witness:
  "parse_pipeline (graph_body [JObj [(''id'', JStr ''a'')], JStr ''b''] []) = HTTPException 500 TypeError"
  by (rule parse_pipeline_non_object_node
        [where d = "\<lparr>nodes = [JObj [(''id'', JStr ''a'')], JStr ''b''], edges = []\<rparr>"
           and pre = "[JObj [(''id'', JStr ''a'')]]" and x = "JStr ''b''" and post = "[]"])
     (simp_all add: obj_get_def)

text \<open>C21: Likewise for edges (line 32): an edge entry that is not a JSON object, after
  edges that all have both endpoints and with every node carrying an "id", makes the
  handler answer HTTP 500 with a TypeError.\<close>

theorem parse_pipeline_non_object_edge:
  assumes "validate_graph_data body = Some d"
    and "\<forall>n \<in> set (nodes d). \<exists>v. getitem n ''id'' = Inr v"
    and "edges d = pre @ x # post"
    and "\<forall>e \<in> set pre. \<exists>p. edge_pair e = Inr p"
    and "\<forall>kvs. x \<noteq> JObj kvs"
  shows "parse_pipeline body = HTTPException 500 TypeError"
proof -
  obtain ids where ids: "node_ids_of (nodes d) = Inr ids"
    using smap_Inr_all [OF assms(2)] unfolding node_ids_of_def by blast
  obtain ps_pre where ps_pre: "edges_of pre = Inr ps_pre"
    using smap_Inr_all [OF assms(4)] unfolding edges_of_def by blast
  have "edge_pair x = Inl TypeError" using assms(5) by (cases x) (auto simp: edge_pair_def)
  then have "edges_of (edges d) = Inl TypeError"
    using ps_pre assms(3) by (simp add: edges_of_def smap_append)
  with ids assms(1) show ?thesis
    by (simp add: parse_pipeline_def parse_pipeline_body_def)
qed

theorem parse_pipeline_non_object_edge_witness:
  "parse_pipeline (graph_body [JObj [(''id'', JStr ''a'')]] [JArr [JStr ''a'', JStr ''b'']]) =
   HTTPException 500 TypeError"
  by (rule parse_pipeline_non_object_edge
        [where d = "\<lparr>nodes = [JObj [(''id'', JStr ''a'')]], edges = [JArr [JStr ''a'', JStr ''b'']]\<rparr>"
           and pre = "[]" and x = "JArr [JStr ''a'', JStr ''b'']" and post = "[]"])
     (simp_all add: obj_get_def)

text \<open>C10: A node whose "id" is a two-element list of a hashable value and an attribute
  dict is accepted and counted as the node named by that value: networkx's
  add_nodes_from unpacks it as a (node, attributes) pair. The response is the same as for
  the plain id.\<close>

theorem parse_pipeline_pair_id:
  "py_key x \<noteq> None \<Longrightarrow>
     parse_pipeline (graph_body (pre @ JObj [(''id'', JArr [x, JObj kvs])] # post) es) =
     parse_pipeline (graph_body (pre @ JObj [(''id'', x)] # post) es)"
  by (rule parse_pipeline_node_key_cong)
     (auto simp: node_key_def unpack2_def dict_update_check_def)

theorem parse_pipeline_pair_id_witness:
  "py_key (JStr ''a'') \<noteq> None \<and>
   parse_pipeline (graph_body [JObj [(''id'', JArr [JStr ''a'', JObj [(''color'', JStr ''red'')]])]] []) =
   parse_pipeline (graph_body [JObj [(''id'', JStr ''a'')]] [])"
  using parse_pipeline_pair_id [of "JStr ''a''" "[]" "[(''color'', JStr ''red'')]" "[]" "[]"]
  by simp

text \<open>C22: Node identity is Python's equality: a request with two nodes whose ids are
  hashable and not null, and no edges, is answered with one node when the ids are equal
  in Python (true, 1 and 1.0 are) and with two nodes otherwise.\<close>

theorem parse_pipeline_two_ids:
  assumes "good_key x \<noteq> None" "good_key y \<noteq> None"
  shows "parse_pipeline (graph_body [JObj [(''id'', x)], JObj [(''id'', y)]] []) =
           Response \<lparr>num_nodes = (if py_eq x y then 1 else 2), num_edges = 0, is_dag = True\<rparr>"
proof -
  let ?d = "\<lparr>nodes = [JObj [(''id'', x)], JObj [(''id'', y)]], edges = []\<rparr>"
  obtain a b where ga: "good_key x = Some a" and gb: "good_key y = Some b" using assms by blast
  then have "py_key x = Some a" "py_key y = Some b"
    by (auto simp: good_key_def split: option.splits if_splits)
  then have eq: "(a = b) = py_eq x y" by (rule py_key_eq_py_eq)
  have wf: "body_well_formed ?d"
    using ga gb by (simp add: body_well_formed_def id_key_def obj_get_def)
  have "declared_nodes ?d = {a, b}" "declared_arcs ?d = {}"
    using ga gb by (simp_all add: declared_nodes_def declared_arcs_def id_key_def obj_get_def
                                  List.map_filter_simps)
  then have "spec_result ?d = \<lparr>num_nodes = (if py_eq x y then 1 else 2), num_edges = 0, is_dag = True\<rparr>"
    using eq by (auto simp: spec_result_def acyclic_def)
  with wf show ?thesis by (simp add: parse_pipeline_def parse_pipeline_body_spec)
qed

theorem parse_pipeline_two_ids_witness:
  "good_key (JBool True) \<noteq> None \<and> good_key (JNum 1) \<noteq> None \<and>
   parse_pipeline (graph_body [JObj [(''id'', JBool True)], JObj [(''id'', JNum 1)]] []) =
     Response \<lparr>num_nodes = 1, num_edges = 0, is_dag = True\<rparr>"
  using parse_pipeline_two_ids [of "JBool True" "JNum 1"] by (simp add: good_key_def)

text \<open>C11: A node whose "id" is null, after well-formed nodes, with every other entry
  carrying its keys, makes networkx raise ValueError("None cannot be a node") and the
  handler answer HTTP 500.\<close>

theorem parse_pipeline_null_id:
  assumes "validate_graph_data body = Some d"
    and "nodes d = pre @ n # post" and "getitem n ''id'' = Inr JNull"
    and "\<forall>m \<in> set pre. id_key m \<noteq> None"
    and "\<forall>m \<in> set post. \<exists>v. getitem m ''id'' = Inr v"
    and "\<forall>e \<in> set (edges d). \<exists>p. edge_pair e = Inr p"
  shows "parse_pipeline body = HTTPException 500 ValueError"
proof -
  obtain ids where ids: "node_ids_of pre = Inr ids" and gi: "\<forall>v \<in> set ids. good_key v \<noteq> None"
    using node_ids_of_wf [of pre] assms(4) by (auto simp: list_all_iff)
  obtain ids' where ids': "node_ids_of post = Inr ids'"
    using smap_Inr_all [OF assms(5)] unfolding node_ids_of_def by blast
  obtain ps where ps: "edges_of (edges d) = Inr ps"
    using smap_Inr_all [OF assms(6)] unfolding edges_of_def by blast
  have all: "node_ids_of (nodes d) = Inr (ids @ JNull # ids')"
    using ids ids' assms(2,3) by (simp add: node_ids_of_def smap_append)
  have "\<forall>v \<in> set ids. \<exists>k. node_key v = Inr k \<and> k \<noteq> KNone"
    using gi good_key_node_key by fastforce
  with add_nodes_from_ok_iff [OF wf_empty_digraph] obtain G1 where
    g1: "add_nodes_from ids empty_digraph = Inr G1" by blast
  from add_nodes_from_Inr [OF wf_empty_digraph g1] have wf1: "wf_digraph G1" by blast
  have "add_nodes_from (JNull # ids') G1 = Inl ValueError"
    using wf1 by (simp add: node_key_def add_node_step_wf_eq)
  with g1 have "build_graph (ids @ JNull # ids') ps = Inl ValueError"
    by (simp add: build_graph_def add_nodes_from_append)
  with all ps assms(1) show ?thesis
    by (simp add: parse_pipeline_def parse_pipeline_body_def)
qed

theorem parse_pipeline_null_id_witness:
  "parse_pipeline (graph_body [JObj [(''id'', JStr ''a'')], JObj [(''id'', JNull)]] []) =
   HTTPException 500 ValueError"
  by (rule parse_pipeline_null_id
        [where d = "\<lparr>nodes = [JObj [(''id'', JStr ''a'')], JObj [(''id'', JNull)]], edges = []\<rparr>"
           and pre = "[JObj [(''id'', JStr ''a'')]]" and n = "JObj [(''id'', JNull)]" and post = "[]"])
     (simp_all add: obj_get_def id_key_def good_key_def)

lemma set_map_filter: "set (List.map_filter f xs) = {y. \<exists>x \<in> set xs. f x = Some y}"
  by (induction xs) (auto split: option.splits)

text \<open>C12: On well-formed requests the response depends only on the sets of node entries and
  of edge entries: reordering them or repeating an entry changes nothing.\<close>

theorem parse_pipeline_entry_sets:
  assumes "validate_graph_data ba = Some da" "validate_graph_data bb = Some db"
    and "body_well_formed da"
    and "set (nodes da) = set (nodes db)" "set (edges da) = set (edges db)"
  shows "parse_pipeline ba = parse_pipeline bb"
proof -
  have w2: "body_well_formed db"
    using assms(3-5) by (simp add: body_well_formed_def list_all_iff)
  have "spec_result da = spec_result db"
    using assms(4,5) by (simp add: spec_result_def declared_nodes_def declared_arcs_def set_map_filter)
  with assms(1,2,3) w2 show ?thesis
    by (simp add: parse_pipeline_def parse_pipeline_body_spec)
qed

theorem parse_pipeline_entry_sets_witness:
  "parse_pipeline (graph_body [JObj [(''id'', JStr ''a'')], JObj [(''id'', JStr ''b'')]]
     [JObj [(''source'', JStr ''a''), (''target'', JStr ''b'')],
      JObj [(''source'', JStr ''a''), (''target'', JStr ''b'')]]) =
   parse_pipeline (graph_body [JObj [(''id'', JStr ''b'')], JObj [(''id'', JStr ''a'')]]
     [JObj [(''source'', JStr ''a''), (''target'', JStr ''b'')]])"
  by (rule parse_pipeline_entry_sets
        [where da = "\<lparr>nodes = [JObj [(''id'', JStr ''a'')], JObj [(''id'', JStr ''b'')]],
                      edges = [JObj [(''source'', JStr ''a''), (''target'', JStr ''b'')],
                               JObj [(''source'', JStr ''a''), (''target'', JStr ''b'')]]\<rparr>"
           and db = "\<lparr>nodes = [JObj [(''id'', JStr ''b'')], JObj [(''id'', JStr ''a'')]],
                      edges = [JObj [(''source'', JStr ''a''), (''target'', JStr ''b'')]]\<rparr>"])
     (auto simp: body_well_formed_def id_key_def edge_key_def edge_pair_def obj_get_def
                 good_key_def arc_key_def)

text \<open>C13: A request with no edges and well-formed nodes is answered with the number of
  distinct declared ids, zero edges, and is_dag true.\<close>

theorem parse_pipeline_no_edges:
  assumes "validate_graph_data body = Some d"
    and "\<forall>n \<in> set (nodes d). id_key n \<noteq> None" and "edges d = []"
  shows "parse_pipeline body =
           Response \<lparr>num_nodes = card (declared_nodes d), num_edges = 0, is_dag = True\<rparr>"
proof -
  have "body_well_formed d" using assms(2,3) by (simp add: body_well_formed_def list_all_iff)
  moreover have "declared_arcs d = {}" using assms(3) by (simp add: declared_arcs_def)
  ultimately show ?thesis
    using assms(1) by (simp add: parse_pipeline_def parse_pipeline_body_spec spec_result_def acyclic_def)
qed

theorem parse_pipeline_no_edges_witness:
  "parse_pipeline (graph_body [JObj [(''id'', JStr ''a'')], JObj [(''id'', JStr ''b'')]] []) =
   Response \<lparr>num_nodes = 2, num_edges = 0, is_dag = True\<rparr>"
proof -
  have "parse_pipeline (graph_body [JObj [(''id'', JStr ''a'')], JObj [(''id'', JStr ''b'')]] []) =
     Response \<lparr>num_nodes = card (declared_nodes
        \<lparr>nodes = [JObj [(''id'', JStr ''a'')], JObj [(''id'', JStr ''b'')]], edges = []\<rparr>),
        num_edges = 0, is_dag = True\<rparr>"
    by (rule parse_pipeline_no_edges) (simp_all add: id_key_def obj_get_def good_key_def)
  then show ?thesis by (simp add: declared_nodes_def id_key_def obj_get_def good_key_def)
qed

text \<open>C14: A well-formed request with a self-loop is answered with is_dag false.\<close>

theorem parse_pipeline_self_loop:
  assumes "validate_graph_data body = Some d" "body_well_formed d" "(a, a) \<in> declared_arcs d"
  shows "\<exists>r. parse_pipeline body = Response r \<and> \<not> is_dag r"
proof -
  have "\<not> acyclic (declared_arcs d)" using assms(3) by (auto simp: acyclic_def)
  with assms(1,2) show ?thesis
    by (simp add: parse_pipeline_def parse_pipeline_body_spec spec_result_def)
qed

theorem parse_pipeline_self_loop_witness:
  "\<exists>r. parse_pipeline (graph_body [JObj [(''id'', JStr ''a'')]]
          [JObj [(''source'', JStr ''a''), (''target'', JStr ''a'')]]) = Response r \<and> \<not> is_dag r"
  by (rule parse_pipeline_self_loop
        [where d = "\<lparr>nodes = [JObj [(''id'', JStr ''a'')]],
                     edges = [JObj [(''source'', JStr ''a''), (''target'', JStr ''a'')]]\<rparr>"
           and a = "KStr ''a''"])
     (simp_all add: body_well_formed_def declared_arcs_def id_key_def edge_key_def edge_pair_def
                    obj_get_def good_key_def arc_key_def)

end
