(* ===== verification/App.thy ===== *)
theory App
  imports Pipeline
begin

text \<open>
  The application around the handler in \<^verbatim>\<open>main.py\<close>: the FastAPI instance (line 9)
  with its one route \<^verbatim>\<open>POST /pipelines/parse\<close> (line 28), the CORS middleware
  configuration (lines 12--20) and the uvicorn server settings (lines 52--55).
  \<open>handle_request\<close> is Starlette's dispatch on this route table: the route's path with
  another method is 405, the path with trailing slashes is redirected (307) to the route,
  FastAPI's own documentation routes answer GET and HEAD (Starlette adds HEAD to a
  route that allows GET), and every other path is 404.
  \<open>status_code\<close> is the HTTP status of each outcome. \<open>app_cors\<close> is the
  configuration passed to Starlette's CORS middleware and \<open>cors_is_allowed_origin\<close> its
  origin test; the middleware itself is in theory \<open>Cors\<close>.
\<close>

record http_request =
  req_method :: string
  path :: string
  body :: json

datatype http_outcome =
    Handled response
  | FrameworkRoute string
  | MethodNotAllowed
  | RedirectSlash string
  | NotFound

record cors_config =
  allow_origins :: "string list"
  allow_credentials :: bool
  allow_methods :: "string list"
  allow_headers :: "string list"

record server_config =
  host :: string
  port :: nat

definition app_cors :: cors_config where
  "app_cors =
     \<lparr>allow_origins = [''http://localhost:3000''], allow_credentials = True,
      allow_methods = [''*''], allow_headers = [''*'']\<rparr>"

definition main_server :: server_config where
  "main_server = \<lparr>host = ''127.0.0.1'', port = 8000\<rparr>"

definition framework_paths :: "string list" where
  "framework_paths = [''/openapi.json'', ''/docs'', ''/docs/oauth2-redirect'', ''/redoc'']"

fun strip_slashes :: "string \<Rightarrow> string" where
  "strip_slashes s = rev (dropWhile (\<lambda>c. c = CHR ''/'') (rev s))"

definition route_of :: "string \<Rightarrow> string \<Rightarrow> json \<Rightarrow> http_outcome option" where
  "route_of m p b =
     (if p = ''/pipelines/parse'' then
        Some (if m = ''POST'' then Handled (parse_pipeline b) else MethodNotAllowed)
      else if p \<in> set framework_paths then
        Some (if m = ''GET'' \<or> m = ''HEAD'' then FrameworkRoute p else MethodNotAllowed)
      else None)"

definition handle_request :: "http_request \<Rightarrow> http_outcome" where
  "handle_request r =
     (case route_of (req_method r) (path r) (body r) of
        Some out \<Rightarrow> out
      | None \<Rightarrow>
          (let p' = (if last (path r) = CHR ''/'' then strip_slashes (path r) else path r @ ''/'')
           in if path r \<noteq> ''/'' \<and> path r \<noteq> [] \<and> route_of (req_method r) p' (body r) \<noteq> None
              then RedirectSlash p' else NotFound))"

definition status_code :: "http_outcome \<Rightarrow> nat" where
  "status_code out =
     (case out of
        Handled (Response r) \<Rightarrow> 200
      | Handled (HTTPException c e) \<Rightarrow> c
      | Handled RequestValidationError \<Rightarrow> 422
      | FrameworkRoute p \<Rightarrow> 200
      | MethodNotAllowed \<Rightarrow> 405
      | RedirectSlash p \<Rightarrow> 307
      | NotFound \<Rightarrow> 404)"

definition cors_is_allowed_origin :: "cors_config \<Rightarrow> string \<Rightarrow> bool" where
  "cors_is_allowed_origin cfg origin =
     (''*'' \<in> set (allow_origins cfg) \<or> origin \<in> set (allow_origins cfg))"

end
