(* ===== verification/Cors.thy ===== *)
theory Cors
  imports App "HOL-Library.Char_ord" "HOL-Library.List_Lexorder"
begin

text \<open>
  Starlette's \<^verbatim>\<open>CORSMiddleware\<close>, which \<^verbatim>\<open>main.py\<close> installs around the application
  (lines 12--20), and the application as a client sees it (\<open>serve\<close>). Request headers
  are the ASGI header list, names in lower case, looked up first match first
  (\<open>map_of\<close>). A request without an \<^verbatim>\<open>origin\<close> header goes to the router unchanged.
  An \<^verbatim>\<open>OPTIONS\<close> request with \<^verbatim>\<open>origin\<close> and
  \<^verbatim>\<open>access-control-request-method\<close> is a preflight: the middleware answers it
  itself (\<open>cors_preflight\<close>, status, plain-text body and headers) and the router never
  sees it. Every other request with an origin goes to the router, and the middleware adds
  \<open>cors_simple_headers\<close> to whatever response comes back, error responses included.
  \<open>cors_preflight\<close> follows \<^verbatim>\<open>preflight_response\<close> together with the headers the
  constructor precomputes: \<^verbatim>\<open>allow_methods=["*"]\<close> stands for the seven methods of
  \<^verbatim>\<open>ALL_METHODS\<close>, the safelisted headers are added to \<^verbatim>\<open>allow_headers\<close>, and a
  preflight fails with the list of what was disallowed (origin, method, headers).
  Content-length and content-type of the middleware's own responses are not modelled.
\<close>

definition cors_simple_headers :: "cors_config \<Rightarrow> string \<Rightarrow> bool \<Rightarrow> (string \<times> string) list" where
  "cors_simple_headers cfg origin has_cookie =
     (let all_origins = ''*'' \<in> set (allow_origins cfg);
          simple = (if all_origins then [(''access-control-allow-origin'', ''*'')] else []) @
                   (if allow_credentials cfg then [(''access-control-allow-credentials'', ''true'')] else [])
      in if all_origins \<and> has_cookie \<or> \<not> all_origins \<and> cors_is_allowed_origin cfg origin
         then AList.update ''access-control-allow-origin'' origin simple @ [(''vary'', ''Origin'')]
         else simple)"

definition cors_preflight ::
  "cors_config \<Rightarrow> string \<Rightarrow> string \<Rightarrow> string option \<Rightarrow> nat \<times> string \<times> (string \<times> string) list" where
  "cors_preflight cfg origin requested_method requested_headers =
     (let join = (\<lambda>sep xs. concat (case xs of [] \<Rightarrow> [] | x # ys \<Rightarrow> x # map (\<lambda>y. sep @ y) ys));
          lower = map (\<lambda>c. if c \<in> set ''ABCDEFGHIJKLMNOPQRSTUVWXYZ'' then char_of (of_char c + (32::nat)) else c);
          space = (\<lambda>c. c = CHR '' '' \<or> of_char c \<in> {9::nat, 10, 11, 12, 13});
          strip = (\<lambda>s. rev (dropWhile space (rev (dropWhile space s))));
          split = (\<lambda>s. foldr (\<lambda>c acc. if c = CHR '','' then [] # acc else (c # hd acc) # tl acc) s [[]]);
          all_origins = ''*'' \<in> set (allow_origins cfg);
          all_headers = ''*'' \<in> set (allow_headers cfg);
          explicit = (\<not> all_origins \<or> allow_credentials cfg);
          methods = (if ''*'' \<in> set (allow_methods cfg)
                     then [''DELETE'', ''GET'', ''HEAD'', ''OPTIONS'', ''PATCH'', ''POST'', ''PUT'']
                     else allow_methods cfg);
          hdrs = sort (remdups ([''Accept'', ''Accept-Language'', ''Content-Language'', ''Content-Type''] @
                                allow_headers cfg));
          preflight_headers =
            (if explicit then [(''vary'', ''Origin'')] else [(''access-control-allow-origin'', ''*'')]) @
            [(''access-control-allow-methods'', join '', '' methods), (''access-control-max-age'', ''600'')] @
            (if hdrs \<noteq> [] \<and> \<not> all_headers then [(''access-control-allow-headers'', join '', '' hdrs)] else []) @
            (if allow_credentials cfg then [(''access-control-allow-credentials'', ''true'')] else []);
          (headers1, failures1) =
            (if cors_is_allowed_origin cfg origin
             then (if explicit then AList.update ''access-control-allow-origin'' origin preflight_headers
                   else preflight_headers, [])
             else (preflight_headers, [''origin'']));
          failures2 = (if requested_method \<in> set methods then failures1 else failures1 @ [''method'']);
          (headers2, failures) =
            (case requested_headers of
               None \<Rightarrow> (headers1, failures2)
             | Some rh \<Rightarrow>
                 (if all_headers then (AList.update ''access-control-allow-headers'' rh headers1, failures2)
                  else (headers1,
                        if list_ex (\<lambda>h. strip (lower h) \<notin> set (map lower hdrs)) (split rh)
                        then failures2 @ [''headers''] else failures2)))
      in if failures \<noteq> [] then (400, ''Disallowed CORS '' @ join '', '' failures, headers2)
         else (200, ''OK'', headers2))"

definition cors_middleware ::
  "cors_config \<Rightarrow> (string \<times> string) list \<Rightarrow> string \<Rightarrow> http_outcome \<Rightarrow>
     (nat \<times> string \<times> (string \<times> string) list) + (http_outcome \<times> (string \<times> string) list)" where
  "cors_middleware cfg hdrs meth app_outcome =
     (case map_of hdrs ''origin'' of
        None \<Rightarrow> Inr (app_outcome, [])
      | Some origin \<Rightarrow>
          (case map_of hdrs ''access-control-request-method'' of
             Some m \<Rightarrow>
               (if meth = ''OPTIONS''
                then Inl (cors_preflight cfg origin m (map_of hdrs ''access-control-request-headers''))
                else Inr (app_outcome, cors_simple_headers cfg origin (map_of hdrs ''cookie'' \<noteq> None)))
           | None \<Rightarrow> Inr (app_outcome, cors_simple_headers cfg origin (map_of hdrs ''cookie'' \<noteq> None))))"

definition serve ::
  "(string \<times> string) list \<Rightarrow> http_request \<Rightarrow>
     (nat \<times> string \<times> (string \<times> string) list) + (http_outcome \<times> (string \<times> string) list)" where
  "serve hdrs r = cors_middleware app_cors hdrs (req_method r) (handle_request r)"

subsection \<open>The application's CORS behaviour\<close>

text \<open>The preflight answer under the configuration of \<^verbatim>\<open>main.py\<close>, in closed form.\<close>

lemma app_cors_preflight:
  "cors_preflight app_cors origin m rh =
     (let ok_origin = (origin = ''http://localhost:3000'');
          ok_method = (m \<in> set [''DELETE'', ''GET'', ''HEAD'', ''OPTIONS'', ''PATCH'', ''POST'', ''PUT'']);
          hs = [(''vary'', ''Origin''), (''access-control-allow-methods'', ''DELETE, GET, HEAD, OPTIONS, PATCH, POST, PUT''),
                (''access-control-max-age'', ''600''), (''access-control-allow-credentials'', ''true'')] @
               (if ok_origin then [(''access-control-allow-origin'', origin)] else []) @
               (case rh of None \<Rightarrow> [] | Some h \<Rightarrow> [(''access-control-allow-headers'', h)])
      in if ok_origin \<and> ok_method then (200, ''OK'', hs)
         else (400, ''Disallowed CORS '' @
                 (if \<not> ok_origin \<and> \<not> ok_method then ''origin, method''
                  else if \<not> ok_origin then ''origin'' else ''method''), hs))"
  by (cases rh) (auto simp: cors_preflight_def app_cors_def cors_is_allowed_origin_def Let_def)

lemma serve_passes:
  "req_method r \<noteq> ''OPTIONS'' \<Longrightarrow> \<exists>hs. serve hdrs r = Inr (handle_request r, hs)"
  by (simp add: serve_def cors_middleware_def split: option.splits)

lemma status_parse_pipeline: "status_code (Handled (parse_pipeline b)) \<in> {200, 422, 500}"
  by (auto simp: status_code_def parse_pipeline_def split: option.splits sum.splits)

text \<open>C15: Every request that is not a preflight reaches the router unchanged. The middleware
  adds CORS headers exactly when the request has an Origin header, and the
  Access-Control-Allow-Origin header only for the frontend origin http://localhost:3000.\<close>

theorem app_cors_allow_origin:
  "\<not> (req_method r = ''OPTIONS'' \<and> map_of hdrs ''access-control-request-method'' \<noteq> None) \<Longrightarrow>
     \<exists>hs. serve hdrs r = Inr (handle_request r, hs) \<and>
       map_of hs ''access-control-allow-origin'' =
         (if map_of hdrs ''origin'' = Some ''http://localhost:3000'' then Some ''http://localhost:3000'' else None) \<and>
       (hs = [] \<longleftrightarrow> map_of hdrs ''origin'' = None)"
  by (auto simp: serve_def cors_middleware_def cors_simple_headers_def app_cors_def
                 cors_is_allowed_origin_def split: option.splits)

theorem app_cors_allow_origin_witness:
  "\<not> (req_method \<lparr>req_method = ''POST'', path = ''/pipelines/parse'', body = JNull\<rparr> = ''OPTIONS'' \<and>
      map_of [(''origin'', ''http://evil.example'')] ''access-control-request-method'' \<noteq> None) \<and>
   (\<exists>hs. serve [(''origin'', ''http://evil.example'')] \<lparr>req_method = ''POST'', path = ''/pipelines/parse'', body = JNull\<rparr> =
      Inr (Handled RequestValidationError, hs) \<and> map_of hs ''access-control-allow-origin'' = None)"
  using app_cors_allow_origin [of "\<lparr>req_method = ''POST'', path = ''/pipelines/parse'', body = JNull\<rparr>"
      "[(''origin'', ''http://evil.example'')]"]
  by (simp add: handle_request_def route_of_def parse_pipeline_def validate_graph_data_def) blast

text \<open>C16: A preflight (OPTIONS with Origin and Access-Control-Request-Method) for any of
  the methods that \<^verbatim>\<open>allow_methods=["*"]\<close> stands for never reaches the router. It is
  answered 200 "OK" when the origin is the frontend http://localhost:3000 and 400 otherwise;
  the origin is granted only to the frontend, credentials are allowed, and whatever headers
  the browser asks for are granted (\<^verbatim>\<open>allow_headers=["*"]\<close>).\<close>

theorem serve_preflight:
  assumes "req_method r = ''OPTIONS''" "map_of hdrs ''origin'' = Some origin"
    "map_of hdrs ''access-control-request-method'' = Some m"
    "m \<in> set [''DELETE'', ''GET'', ''HEAD'', ''OPTIONS'', ''PATCH'', ''POST'', ''PUT'']"
  shows "\<exists>st txt hs. serve hdrs r = Inl (st, txt, hs) \<and>
     (st = 200 \<longleftrightarrow> origin = ''http://localhost:3000'') \<and>
     st \<in> {200, 400} \<and> (st = 200 \<longleftrightarrow> txt = ''OK'') \<and>
     map_of hs ''access-control-allow-origin'' =
       (if origin = ''http://localhost:3000'' then Some origin else None) \<and>
     map_of hs ''access-control-allow-credentials'' = Some ''true'' \<and>
     map_of hs ''access-control-allow-headers'' = map_of hdrs ''access-control-request-headers''"
  using assms
  by (cases "map_of hdrs ''access-control-request-headers''")
     (auto simp: serve_def cors_middleware_def app_cors_preflight Let_def)

theorem serve_preflight_witness:
  "req_method \<lparr>req_method = ''OPTIONS'', path = ''/pipelines/parse'', body = JNull\<rparr> = ''OPTIONS'' \<and>
   map_of [(''origin'', ''http://localhost:3000''), (''access-control-request-method'', ''POST''),
           (''access-control-request-headers'', ''content-type'')] ''origin'' = Some ''http://localhost:3000'' \<and>
   map_of [(''origin'', ''http://localhost:3000''), (''access-control-request-method'', ''POST''),
           (''access-control-request-headers'', ''content-type'')] ''access-control-request-method'' = Some ''POST'' \<and>
   (\<exists>hs. serve [(''origin'', ''http://localhost:3000''), (''access-control-request-method'', ''POST''),
                 (''access-control-request-headers'', ''content-type'')]
      \<lparr>req_method = ''OPTIONS'', path = ''/pipelines/parse'', body = JNull\<rparr> = Inl (200, ''OK'', hs) \<and>
      map_of hs ''access-control-allow-headers'' = Some ''content-type'')"
  using serve_preflight [of "\<lparr>req_method = ''OPTIONS'', path = ''/pipelines/parse'', body = JNull\<rparr>"
      "[(''origin'', ''http://localhost:3000''), (''access-control-request-method'', ''POST''),
        (''access-control-request-headers'', ''content-type'')]"
      "''http://localhost:3000''" "''POST''"]
  by auto
text \<open>C24: A POST to the route from the frontend origin always gets its answer with the CORS
  headers that let the browser read it: the frontend origin granted, credentials allowed,
  whatever the handler answered, the counts (200), a validation error (422) or the
  HTTPException of an error while parsing (500).\<close>

theorem serve_frontend_post:
  assumes "map_of hdrs ''origin'' = Some ''http://localhost:3000''"
  shows "\<exists>hs. serve hdrs \<lparr>req_method = ''POST'', path = ''/pipelines/parse'', body = b\<rparr> =
                Inr (Handled (parse_pipeline b), hs) \<and>
              map_of hs ''access-control-allow-origin'' = Some ''http://localhost:3000'' \<and>
              map_of hs ''access-control-allow-credentials'' = Some ''true'' \<and>
              status_code (Handled (parse_pipeline b)) \<in> {200, 422, 500}"
proof -
  have "handle_request \<lparr>req_method = ''POST'', path = ''/pipelines/parse'', body = b\<rparr> =
          Handled (parse_pipeline b)"
    by (simp add: handle_request_def route_of_def)
  then show ?thesis using assms status_parse_pipeline [of b]
    by (auto simp: serve_def cors_middleware_def cors_simple_headers_def app_cors_def
                   cors_is_allowed_origin_def split: option.splits)
qed

theorem serve_frontend_post_witness:
  "map_of [(''origin'', ''http://localhost:3000'')] ''origin'' = Some ''http://localhost:3000'' \<and>
   (\<exists>hs. serve [(''origin'', ''http://localhost:3000'')]
           \<lparr>req_method = ''POST'', path = ''/pipelines/parse'',
            body = JObj [(''nodes'', JArr [JObj [(''id'', JStr ''a'')]]),
                         (''edges'', JArr [JObj [(''source'', JStr ''a'')]])]\<rparr> =
         Inr (Handled (HTTPException 500 (KeyError ''target'')), hs) \<and>
         map_of hs ''access-control-allow-origin'' = Some ''http://localhost:3000'')"
  using serve_frontend_post [of "[(''origin'', ''http://localhost:3000'')]"
      "JObj [(''nodes'', JArr [JObj [(''id'', JStr ''a'')]]), (''edges'', JArr [JObj [(''source'', JStr ''a'')]])]"]
  by (simp add: parse_pipeline_def validate_graph_data_def parse_pipeline_body_def node_ids_of_def
                edges_of_def edge_pair_def json_defs) blast

end
