(* ===== verification/Wire.thy ===== *)
theory Wire
  imports Cors
begin

text \<open>
  The success response on the wire. Line 46 of \<^verbatim>\<open>main.py\<close> returns the dict
  \<^verbatim>\<open>{"num_nodes": ..., "num_edges": ..., "is_dag": ...}\<close>, which FastAPI sends as a
  JSON object (\<open>result_json\<close>). \<open>read_result\<close> is a client of the contract in section 6
  of the specification: it looks the three fields up by name, in any order, and accepts
  only non-negative integers for the counts and a boolean for \<open>is_dag\<close>.
\<close>

definition result_json :: "pipeline_result \<Rightarrow> json" where
  "result_json r =
     JObj [(''num_nodes'', JNum (of_nat (num_nodes r))), (''num_edges'', JNum (of_nat (num_edges r))),
           (''is_dag'', JBool (is_dag r))]"

definition read_count :: "json option \<Rightarrow> nat option" where
  "read_count v =
     (case v of
        Some (JNum q) \<Rightarrow> (if 0 \<le> q \<and> q = of_int \<lfloor>q\<rfloor> then Some (nat \<lfloor>q\<rfloor>) else None)
      | _ \<Rightarrow> None)"

definition read_result :: "json \<Rightarrow> pipeline_result option" where
  "read_result j =
     (case j of
        JObj kvs \<Rightarrow>
          (case (read_count (obj_get kvs ''num_nodes''), read_count (obj_get kvs ''num_edges''),
                 obj_get kvs ''is_dag'') of
             (Some n, Some e, Some (JBool d)) \<Rightarrow> Some \<lparr>num_nodes = n, num_edges = e, is_dag = d\<rparr>
           | _ \<Rightarrow> None)
      | _ \<Rightarrow> None)"

lemma read_count_of_nat [simp]: "read_count (Some (JNum (of_nat n))) = Some n"
  by (simp add: read_count_def)

lemma read_result_json: "read_result (result_json r) = Some r"
  by (simp add: read_result_def result_json_def obj_get_def)

text \<open>C17: End to end, through the CORS middleware and the router: a POST to
  /pipelines/parse whose body passes the schema and is well formed is answered with a
  result from which a client reads exactly the specified triple (distinct nodes, distinct
  arcs, acyclicity), whatever the request headers.\<close>

theorem serve_parse_end_to_end:
  assumes "validate_graph_data b = Some d" "body_well_formed d"
  shows "\<exists>r hs. serve hdrs \<lparr>req_method = ''POST'', path = ''/pipelines/parse'', body = b\<rparr> =
                  Inr (Handled (Response r), hs) \<and> read_result (result_json r) = Some (spec_result d)"
proof -
  have p: "parse_pipeline b = Response (spec_result d)"
    using assms by (simp add: parse_pipeline_def parse_pipeline_body_spec)
  obtain hs where "serve hdrs \<lparr>req_method = ''POST'', path = ''/pipelines/parse'', body = b\<rparr> =
                     Inr (handle_request \<lparr>req_method = ''POST'', path = ''/pipelines/parse'', body = b\<rparr>, hs)"
    using serve_passes by fastforce
  then show ?thesis
    using p read_result_json by (simp add: handle_request_def route_of_def)
qed

theorem serve_parse_end_to_end_witness:
  "\<exists>r hs. serve [(''origin'', ''http://localhost:3000'')]
      \<lparr>req_method = ''POST'', path = ''/pipelines/parse'',
       body = graph_body [JObj [(''id'', JStr ''a'')]] [JObj [(''source'', JStr ''a''), (''target'', JStr ''a'')]]\<rparr> =
      Inr (Handled (Response r), hs) \<and>
      read_result (result_json r) = Some \<lparr>num_nodes = 1, num_edges = 1, is_dag = False\<rparr>"
proof -
  let ?d = "\<lparr>nodes = [JObj [(''id'', JStr ''a'')]], edges = [JObj [(''source'', JStr ''a''), (''target'', JStr ''a'')]]\<rparr>"
  have wf: "body_well_formed ?d"
    by (simp add: body_well_formed_def id_key_def edge_key_def edge_pair_def obj_get_def good_key_def
                  arc_key_def)
  have s: "spec_result ?d = \<lparr>num_nodes = 1, num_edges = 1, is_dag = False\<rparr>"
    by (simp add: spec_result_def declared_nodes_def declared_arcs_def id_key_def edge_key_def
                  edge_pair_def obj_get_def good_key_def arc_key_def List.map_filter_simps)
  show ?thesis
    using serve_parse_end_to_end [OF validate_graph_body wf, of "[(''origin'', ''http://localhost:3000'')]"] s
    by simp
qed

end
