(* ===== verification/Logging.thy ===== *)
theory Logging
  imports Pipeline
begin

text \<open>
  The console output of the handler: the three debugging \<^verbatim>\<open>print\<close> calls after the graph
  is built (lines 38--40) and the one in the \<^verbatim>\<open>except\<close> clause (line 48). A line is
  kept as the value printed (\<open>log_line\<close>), not as its text: the text is Python's
  \<^verbatim>\<open>repr\<close> of these values. \<open>parse_pipeline_traced\<close> is the body of the handler
  with the printed lines as an output list, in program order; \<open>graph_edges\<close> is the
  iteration order of networkx's \<^verbatim>\<open>G.edges()\<close>, node by node in insertion order and then
  by successor. The theorem shows that every well-formed request has its payload echoed to
  the console, the graph's edges being exactly the distinct declared arcs.
\<close>

datatype log_line =
    ReceivedNodes "json list"
  | ReceivedEdges "(json \<times> json) list"
  | GraphEdges "(key \<times> key) list"
  | ErrorParsing exc

definition graph_edges :: "digraph \<Rightarrow> (key \<times> key) list" where
  "graph_edges G = [(u, v). u \<leftarrow> node G, v \<leftarrow> succ G u]"

definition parse_pipeline_traced :: "graph_data \<Rightarrow> log_line list \<times> (exc + pipeline_result)" where
  "parse_pipeline_traced data =
     (case node_ids_of (nodes data) of
        Inl e \<Rightarrow> ([ErrorParsing e], Inl e)
      | Inr node_ids \<Rightarrow>
          (case edges_of (edges data) of
             Inl e \<Rightarrow> ([ErrorParsing e], Inl e)
           | Inr pairs \<Rightarrow>
               (case build_graph node_ids pairs of
                  Inl e \<Rightarrow> ([ErrorParsing e], Inl e)
                | Inr G \<Rightarrow>
                    (let printed = [ReceivedNodes node_ids, ReceivedEdges pairs, GraphEdges (graph_edges G)]
                     in case is_directed_acyclic_graph G of
                          Inl e \<Rightarrow> (printed @ [ErrorParsing e], Inl e)
                        | Inr dag \<Rightarrow>
                            (printed, Inr \<lparr>num_nodes = number_of_nodes G, num_edges = number_of_edges G,
                                           is_dag = dag\<rparr>)))))"

lemma set_graph_edges: "wf_digraph G \<Longrightarrow> set (graph_edges G) = arcs_of G"
  by (auto simp: graph_edges_def arcs_of_def)

lemma distinct_pairs_comprehension:
  "distinct xs \<Longrightarrow> (\<And>u. distinct (f u)) \<Longrightarrow> distinct [(u, v). u \<leftarrow> xs, v \<leftarrow> f u]"
  by (induction xs) (auto simp: distinct_map inj_on_def)

lemma distinct_graph_edges: "wf_digraph G \<Longrightarrow> distinct (graph_edges G)"
  unfolding graph_edges_def by (rule distinct_pairs_comprehension) (auto simp: wf_digraph_def)

lemma distinct_set_singleton:
  assumes "distinct xs" "set xs = {x}"
  shows "xs = [x]"
proof -
  have "length xs = 1" using distinct_card [OF assms(1)] assms(2) by simp
  then obtain y where "xs = [y]" by (auto simp: length_Suc_conv)
  with assms(2) show ?thesis by simp
qed

text \<open>C19: Every well-formed request has its payload written to the console before it is
  answered: the node ids and the edge pairs as received, and then the graph's edges, which
  are the distinct declared (source, target) pairs. The specification asks that request
  data not be echoed to logs.\<close>

theorem parse_pipeline_echoes_payload:
  assumes "body_well_formed d"
  shows "\<exists>ids ps es. node_ids_of (nodes d) = Inr ids \<and> edges_of (edges d) = Inr ps \<and>
           fst (parse_pipeline_traced d) = [ReceivedNodes ids, ReceivedEdges ps, GraphEdges es] \<and>
           distinct es \<and> set es = declared_arcs d"
proof -
  from assms obtain ids where ids: "node_ids_of (nodes d) = Inr ids"
    and gi: "\<forall>v \<in> set ids. good_key v \<noteq> None"
    using node_ids_of_wf unfolding body_well_formed_def by blast
  from assms obtain ps where ps: "edges_of (edges d) = Inr ps"
    and gp: "\<forall>p \<in> set ps. arc_key p \<noteq> None"
    and sp: "{p. \<exists>e \<in> set ps. arc_key e = Some p} = declared_arcs d"
    using edges_of_wf unfolding body_well_formed_def declared_arcs_def by blast
  from build_graph_wf [OF gi gp] sp obtain G where g: "build_graph ids ps = Inr G"
    and wf: "wf_digraph G" and a: "arcs_of G = declared_arcs d"
    by auto
  have "is_directed_acyclic_graph G = Inr (acyclic (arcs_of G))"
    by (rule is_directed_acyclic_graph_wf [OF wf])
  then have "fst (parse_pipeline_traced d) = [ReceivedNodes ids, ReceivedEdges ps, GraphEdges (graph_edges G)]"
    using ids ps g by (simp add: parse_pipeline_traced_def)
  moreover have "distinct (graph_edges G)" "set (graph_edges G) = declared_arcs d"
    using distinct_graph_edges [OF wf] set_graph_edges [OF wf] a by simp_all
  ultimately show ?thesis using ids ps by blast
qed

theorem parse_pipeline_echoes_payload_witness:
  "body_well_formed \<lparr>nodes = [JObj [(''id'', JStr ''a'')]], edges = [JObj [(''source'', JStr ''a''), (''target'', JStr ''b'')]]\<rparr> \<and>
   fst (parse_pipeline_traced \<lparr>nodes = [JObj [(''id'', JStr ''a'')]],
                               edges = [JObj [(''source'', JStr ''a''), (''target'', JStr ''b'')]]\<rparr>) =
   [ReceivedNodes [JStr ''a''], ReceivedEdges [(JStr ''a'', JStr ''b'')], GraphEdges [(KStr ''a'', KStr ''b'')]]"
proof -
  let ?d = "\<lparr>nodes = [JObj [(''id'', JStr ''a'')]], edges = [JObj [(''source'', JStr ''a''), (''target'', JStr ''b'')]]\<rparr>"
  have wf: "body_well_formed ?d"
    by (simp add: body_well_formed_def id_key_def edge_key_def edge_pair_def obj_get_def good_key_def
                  arc_key_def)
  from parse_pipeline_echoes_payload [OF wf] obtain ids ps es where
    "node_ids_of (nodes ?d) = Inr ids" "edges_of (edges ?d) = Inr ps"
    "fst (parse_pipeline_traced ?d) = [ReceivedNodes ids, ReceivedEdges ps, GraphEdges es]"
    "distinct es" "set es = declared_arcs ?d"
    by blast
  moreover have "declared_arcs ?d = {(KStr ''a'', KStr ''b'')}"
    by (simp add: declared_arcs_def edge_key_def edge_pair_def obj_get_def arc_key_def good_key_def
                  List.map_filter_simps)
  ultimately show ?thesis using wf
    by (auto simp: node_ids_of_def edges_of_def edge_pair_def obj_get_def distinct_set_singleton)
qed

end
