(* ===== verification/Spec2Isabelle.thy ===== *)
theory Spec2Isabelle
  imports Wire Logging
begin

text \<open>
  \<^bold>\<open>Verification of the pipeline backend, \<^verbatim>\<open>src/backend/backend/main.py\<close>.\<close>

  \<^medskip>\<^bold>\<open>The program.\<close> The backend is one FastAPI application. A CORS middleware
  (lines 12--20) admits the frontend origin \<^verbatim>\<open>http://localhost:3000\<close>. The one route,
  \<^verbatim>\<open>POST /pipelines/parse\<close> (lines 28--49), receives a body validated against the
  pydantic model \<^verbatim>\<open>GraphData\<close> (lines 23--25, two lists \<^verbatim>\<open>nodes\<close> and \<^verbatim>\<open>edges\<close>).
  Inside one \<^verbatim>\<open>try\<close> block it reads \<^verbatim>\<open>node["id"]\<close> of every node and the pair
  \<^verbatim>\<open>(edge["source"], edge["target"])\<close> of every edge, builds a \<^verbatim>\<open>networkx.DiGraph\<close>
  with \<^verbatim>\<open>add_nodes_from\<close> and \<^verbatim>\<open>add_edges_from\<close>, and returns the node count, the
  edge count and \<^verbatim>\<open>nx.is_directed_acyclic_graph(G)\<close>. Any exception becomes HTTP 500.
  Lines 52--55 start uvicorn on 127.0.0.1:8000.

  \<^medskip>\<^bold>\<open>The theories.\<close>
  \<^item> \<open>Prelude\<close>: Python exceptions as values, \<open>exc + 'a\<close>, with the bind \<open>sbind\<close>, list
    comprehensions that may raise (\<open>smap\<close>, left to right, first exception wins) and the
    key order of a dict (\<open>dict_add\<close>); shared lemmas on these, on association lists used
    as dicts, and on acyclicity of finite relations (\<open>cyclic_if_no_source\<close>,
    \<open>acyclic_if_forward\<close>).
  \<^item> \<open>Json\<close>: the parsed request body as a datatype \<open>json\<close>; the Python exceptions that can
    occur (\<open>exc\<close>); hash equality of values (\<open>py_key\<close> into \<open>key\<close>, where
    \<open>True\<close>, \<open>1\<close> and \<open>1.0\<close> coincide and lists and dicts are unhashable); subscription
    \<open>getitem\<close> (\<open>KeyError\<close>, \<open>TypeError\<close>); iteration, two-element unpacking and the
    checks of \<open>dict.update\<close> that networkx performs.
  \<^item> \<open>DiGraph\<close>: networkx's \<open>DiGraph\<close> as a record of the node key list and the
    successor and predecessor key lists, its constructor, \<open>add_nodes_from\<close> (with the
    \<open>(node, attrdict)\<close> fallback), \<open>add_edges_from\<close> (creating missing endpoints),
    \<open>number_of_nodes\<close>, \<open>number_of_edges\<close> (half the degree sum), and
    \<open>build_graph\<close>, lines 34--36. The invariant \<open>wf_digraph\<close> is preserved by every
    operation; \<open>nodes_of\<close> and \<open>arcs_of\<close> abstract a graph to sets, and the operations
    refine set union on them (C5, C6), every operation keeps the invariant (C20), and the
    counts are cardinalities (C4).
  \<^item> \<open>TopoSort\<close> and \<open>Dag\<close>: networkx's \<open>topological_generations\<close> (Kahn's algorithm by
    generations) and \<open>is_directed_acyclic_graph\<close>, with the inner loops
    \<open>decrement_children\<close> and \<open>process_generation\<close> and their \<open>RuntimeError\<close> guards. The
    outer loop \<open>generations_loop\<close> is a total \<^theory_text>\<open>function\<close>: its measure is the length
    of the in-degree dict plus one while the queue is non-empty, and every round deletes
    each node of the queue from the dict or ends (\<open>process_generation_size\<close>), so no fuel
    is needed. The invariant \<open>kahn_inv\<close> relates the dict to the arcs from unprocessed
    nodes; from it the algorithm is correct and raises nothing (C2, C3), and on every graph,
    cyclic ones included, the loop returns after at most as many rounds as there are nodes,
    having yielded each node at most once (C9). \<open>kahn_reach\<close> is the inductive set of
    states the generation loop passes through; by rule induction every such state satisfies
    \<open>kahn_inv\<close>, so every in-degree counter stays between 1 and the node's in-degree and
    no round raises (C23).
  \<^item> \<open>Pipeline\<close>: \<open>GraphData\<close> validation (\<open>validate_graph_data\<close>, 422 otherwise), the
    handler body \<open>parse_pipeline_body\<close> and the handler \<open>parse_pipeline\<close> with its
    \<^verbatim>\<open>except\<close> clause as \<open>HTTPException 500\<close>. The specification side
    (\<open>body_well_formed\<close>, \<open>declared_nodes\<close>, \<open>declared_arcs\<close>, \<open>spec_result\<close>) states
    the response in terms of the declared ids and pairs. The lemmas cover the error paths
    (missing keys C7, C8; non-object entries C18, C21; null ids C11), the identity of
    nodes, which is Python's \<open>==\<close> (\<open>py_eq\<close> in \<open>Json\<close>; C22) with networkx's
    \<open>(node, attrdict)\<close> unpacking (C10), independence of order and repetition (C12), and
    the spec's cases of no edges and of a self-loop (C13, C14).
  \<^item> \<open>App\<close>: the route table and Starlette's dispatch (\<open>handle_request\<close>: 405, trailing-slash
    redirect, GET and HEAD on the documentation routes, 404), the status of every outcome,
    the CORS configuration and the server settings.
  \<^item> \<open>Cors\<close>: Starlette's CORS middleware around the application (\<open>serve\<close>, lines 9--20):
    preflight answers, the headers added to every other response, and pass-through without
    an Origin header. Non-preflight requests reach the router unchanged and only the
    frontend origin is granted (C15); preflights for the methods \<^verbatim>\<open>"*"\<close> stands for
    never reach the router, are accepted only from the frontend and grant every requested
    header (C16). Every answer of the handler to the frontend, error answers included,
    carries the headers that let the browser read it (C24).
  \<^item> \<open>Wire\<close>: the success body of line 46 as a JSON object (\<open>result_json\<close>), which a
    client decodes back to the three values, and the end-to-end refinement through
    middleware, router and handler (C17).
  \<^item> \<open>Logging\<close>: the four \<^verbatim>\<open>print\<close> calls (lines 38--40, 48) as the list of printed
    values (\<open>parse_pipeline_traced\<close>), in program order: every well-formed request has
    its payload echoed to the console (C19).
  \<^item> This theory: the end-to-end refinement C1, that the handler answers every well-formed
    body with \<open>spec_result\<close>.

  \<^medskip>\<^bold>\<open>Not modelled.\<close> The text of the console lines (Python's \<^verbatim>\<open>repr\<close> of the printed
  values). The text of the HTTP 500 detail: it quotes \<^verbatim>\<open>str(e)\<close>, whose wording
  depends on the CPython version and on the distinction between JSON integers and floats,
  which the model of JSON numbers (exact rationals, compared by value as Python does) does
  not keep. The body of FastAPI's 422 response. JSON text parsing and encoding, which are
  framework code. The contents of the documentation pages. Node and edge attribute dicts,
  which the handler never reads. The process start of uvicorn. JSON numbers that
  \<^verbatim>\<open>json.loads\<close> accepts but that are not rationals (NaN, Infinity, floats that
  overflow); strings are lists of 8-bit characters, which matters only for the key order
  check of \<^verbatim>\<open>dict.update\<close> on non-ASCII keys. The three-colour depth-first search of the
  specification (section 4.1): the code does not run it, it calls networkx's Kahn-style
  check, which is what \<open>Dag\<close> models. The handler only counts and compares, so no machine
  width is involved.
\<close>

text \<open>C1: For every request body that passes the schema and whose node ids and edge endpoints
  are all present, hashable and not null, the handler answers with the number of distinct
  nodes (declared ids together with edge endpoints), the number of distinct
  (source, target) pairs, and whether those pairs form an acyclic relation.\<close>

theorem parse_pipeline_correct:
  "validate_graph_data request = Some d \<Longrightarrow> body_well_formed d \<Longrightarrow>
     parse_pipeline request = Response (spec_result d)"
  by (simp add: parse_pipeline_def parse_pipeline_body_spec)

theorem parse_pipeline_correct_witness:
  "body_well_formed
     \<lparr>nodes = [JObj [(''id'', JStr ''a'')], JObj [(''id'', JStr ''b'')], JObj [(''id'', JStr ''c'')]],
      edges = [JObj [(''source'', JStr ''a''), (''target'', JStr ''b'')],
               JObj [(''source'', JStr ''b''), (''target'', JStr ''c'')]]\<rparr> \<and>
   parse_pipeline (graph_body [JObj [(''id'', JStr ''a'')], JObj [(''id'', JStr ''b'')], JObj [(''id'', JStr ''c'')]]
       [JObj [(''source'', JStr ''a''), (''target'', JStr ''b'')],
        JObj [(''source'', JStr ''b''), (''target'', JStr ''c'')]]) =
   Response (spec_result
     \<lparr>nodes = [JObj [(''id'', JStr ''a'')], JObj [(''id'', JStr ''b'')], JObj [(''id'', JStr ''c'')]],
      edges = [JObj [(''source'', JStr ''a''), (''target'', JStr ''b'')],
               JObj [(''source'', JStr ''b''), (''target'', JStr ''c'')]]\<rparr>)"
proof -
  have wf: "body_well_formed
     \<lparr>nodes = [JObj [(''id'', JStr ''a'')], JObj [(''id'', JStr ''b'')], JObj [(''id'', JStr ''c'')]],
      edges = [JObj [(''source'', JStr ''a''), (''target'', JStr ''b'')],
               JObj [(''source'', JStr ''b''), (''target'', JStr ''c'')]]\<rparr>"
    by (simp add: body_well_formed_def id_key_def edge_key_def edge_pair_def obj_get_def
                  good_key_def arc_key_def)
  show ?thesis using wf parse_pipeline_correct [OF validate_graph_body wf] by simp
qed

end
